theory Spec2Isabelle
  imports Main "HOL-Library.Sublist"
begin

unbundle bit_operations_syntax

section \<open>Python values shared by the model\<close>

text \<open>
  The exceptions the modelled code can raise. A function that can raise returns
  \<open>error + 'a\<close>, with \<open>Inl\<close> for the exception.
\<close>

datatype error =
  TypeError | IndexError | ValueError | AttributeError | ParseError | IOError | KeyError
  | UnicodeDecodeError | BadZipFile

text \<open>
  Subscripting a Python list with an integer. Indices from \<open>-len\<close> to \<open>-1\<close> address
  the list from its end; anything outside \<open>-len .. len - 1\<close> raises.
\<close>

definition py_get :: "'a list \<Rightarrow> int \<Rightarrow> error + 'a" where
  "py_get xs i =
     (if 0 \<le> i \<and> i < int (length xs) then Inr (xs ! nat i)
      else if i < 0 \<and> - int (length xs) \<le> i then Inr (xs ! nat (int (length xs) + i))
      else Inl IndexError)"

text \<open>
  Python text is a sequence of code points, and slicing and \<open>len\<close> count code points,
  so text is a list of natural numbers; \<open>str_of\<close> turns an ASCII literal into text.
\<close>

type_synonym str = "nat list"

definition str_of :: "string \<Rightarrow> str" where
  "str_of s = map of_char s"

text \<open>
  Truth value of an attribute that holds \<open>None\<close>, \<open>True\<close> or \<open>False\<close>, and
  Python's \<open>not x\<close> for an attribute that holds \<open>None\<close> or a list.
\<close>

definition truthy :: "bool option \<Rightarrow> bool" where
  "truthy b = (case b of None \<Rightarrow> False | Some v \<Rightarrow> v)"

fun py_not :: "'a list option \<Rightarrow> bool" where
  "py_not None = True"
| "py_not (Some []) = True"
| "py_not (Some (x # xs)) = False"

text \<open>The values a column can hold: an integer, text, or \<open>None\<close>.\<close>

datatype val = IntV int | StrV str | NoneV

definition val_of_int_option :: "int option \<Rightarrow> val" where
  "val_of_int_option x = (case x of None \<Rightarrow> NoneV | Some i \<Rightarrow> IntV i)"

section \<open>file_xml_cache.py: the cache of the last parsed document\<close>

text \<open>
  \<open>FileCache\<close> holds \<open>cached_id\<close> and \<open>cached_data\<close>, both \<open>None\<close> after
  \<open>__init__\<close>. \<open>parse_counter\<close> is an attribute of the class, shared by all
  instances, so it is threaded beside the instance. The parser \<open>ET.fromstring\<close> is a
  parameter \<open>parse\<close>; it raises on bytes that are not well-formed XML.
\<close>

record 't FileCache =
  cached_id :: "int option"
  cached_data :: "'t option"

definition FileCache_init :: "'t FileCache" where
  "FileCache_init = \<lparr>cached_id = None, cached_data = None\<rparr>"

text \<open>
  \<open>read\<close> returns what the call returns (or raises) together with the instance and
  the class counter after the call. The assignments follow the parse, so a parse that
  raises leaves both untouched.
\<close>

definition read ::
  "('b \<Rightarrow> error + 't) \<Rightarrow> 'b \<Rightarrow> int \<Rightarrow> 't FileCache \<times> int
     \<Rightarrow> (error + 't option) \<times> ('t FileCache \<times> int)" where
  "read parse xml_chunk container_id w =
     (case w of (self, parse_counter) \<Rightarrow>
        if Some container_id = cached_id self then (Inr (cached_data self), w)
        else (case parse xml_chunk of
                Inl e \<Rightarrow> (Inl e, w)
              | Inr tree \<Rightarrow>
                  (Inr (Some tree),
                   (self\<lparr>cached_data := Some tree, cached_id := Some container_id\<rparr>,
                    parse_counter + 1))))"

section \<open>uspto.py: the cursor over the XML chunks\<close>

text \<open>
  The default cache instance \<open>file_cache\<close> and the class attribute
  \<open>FileCache.parse_counter\<close> are global; every cursor operation that can reach them
  takes and returns them as the world.
\<close>

type_synonym 't world = "'t FileCache \<times> int"

text \<open>
  \<open>XMLChunkCursor\<close>: \<open>__init__\<close> sets \<open>eof\<close> to \<open>False\<close> and the other attributes
  to \<open>None\<close>. \<open>table.data_source\<close>, the list of XML chunks, never changes and is a
  parameter of the operations.
\<close>

record 't XMLChunkCursor =
  eof :: bool
  file_index :: "int option"
  single_file :: "bool option"
  file_read :: "bool option"
  element_tree :: "'t option"

definition XMLChunkCursor_init :: "'t XMLChunkCursor" where
  "XMLChunkCursor_init =
     \<lparr>eof = False, file_index = None, single_file = None, file_read = None,
      element_tree = None\<rparr>"

text \<open>
  \<open>Next\<close>. \<open>self.file_index + 1\<close> raises TypeError while \<open>file_index\<close> is \<open>None\<close>;
  the subscript \<open>data_source[file_index]\<close> is Python's; the tree comes from the cache,
  with the new \<open>file_index\<close> as container id.
\<close>

definition XMLChunkCursor_Next ::
  "('b \<Rightarrow> error + 't) \<Rightarrow> 'b list \<Rightarrow> 't XMLChunkCursor \<times> 't world
     \<Rightarrow> error + ('t XMLChunkCursor \<times> 't world)" where
  "XMLChunkCursor_Next parse data_source s =
     (case s of (self, w) \<Rightarrow>
        if truthy (single_file self) \<and> truthy (file_read self)
        then Inr (self\<lparr>eof := True\<rparr>, w)
        else (case file_index self of
                None \<Rightarrow> Inl TypeError
              | Some i \<Rightarrow>
                  if i + 1 \<ge> int (length data_source) then Inr (self\<lparr>eof := True\<rparr>, w)
                  else (case py_get data_source (i + 1) of
                          Inl e \<Rightarrow> Inl e
                        | Inr chunk \<Rightarrow>
                            (case read parse chunk (i + 1) w of
                               (Inl e, w') \<Rightarrow> Inl e
                             | (Inr tree, w') \<Rightarrow>
                                 Inr (self\<lparr>file_index := Some (i + 1), element_tree := tree,
                                            eof := False, file_read := Some True\<rparr>, w')))))"

text \<open>
  \<open>Filter\<close>. \<open>CONTAINER_INDEX\<close> is imported from a module that is not part of the
  sources at hand, so the bit mask is a parameter. \<open>constraint_args\<close> holds integers.
  An \<open>index_number\<close> that is neither zero nor has the container bit changes nothing
  before \<open>Next\<close> is called.
\<close>

definition XMLChunkCursor_Filter ::
  "int \<Rightarrow> ('b \<Rightarrow> error + 't) \<Rightarrow> 'b list \<Rightarrow> int \<Rightarrow> int list
     \<Rightarrow> 't XMLChunkCursor \<times> 't world \<Rightarrow> error + ('t XMLChunkCursor \<times> 't world)" where
  "XMLChunkCursor_Filter CONTAINER_INDEX parse data_source index_number constraint_args s =
     (case s of (self, w) \<Rightarrow>
        if index_number = 0
        then XMLChunkCursor_Next parse data_source
               (self\<lparr>file_index := Some (- 1), single_file := Some False\<rparr>, w)
        else if index_number AND CONTAINER_INDEX \<noteq> 0
        then (case py_get constraint_args 0 of
                Inl e \<Rightarrow> Inl e
              | Inr c \<Rightarrow>
                  XMLChunkCursor_Next parse data_source
                    (self\<lparr>single_file := Some True, file_read := Some False,
                          file_index := Some (c - 1)\<rparr>, w))
        else XMLChunkCursor_Next parse data_source (self, w))"

definition XMLChunkCursor_Rowid :: "'t XMLChunkCursor \<Rightarrow> int option" where
  "XMLChunkCursor_Rowid self = file_index self"

definition XMLChunkCursor_Eof :: "'t XMLChunkCursor \<Rightarrow> bool" where
  "XMLChunkCursor_Eof self = eof self"

section \<open>uspto.py: the cursor over the patents (the root entity)\<close>

text \<open>
  \<open>PatentsCursor\<close> owns its \<open>files_cursor\<close>. Its attributes \<open>single_file\<close>,
  \<open>file_read\<close> and \<open>iterator\<close> are set to \<open>None\<close> by \<open>__init__\<close> and never used
  again; they are left out. Its own \<open>eof\<close> is \<open>pc_eof\<close> here.
\<close>

record 't PatentsCursor =
  files_cursor :: "'t XMLChunkCursor"
  pc_eof :: bool
  item_index :: int

definition PatentsCursor_init :: "'t PatentsCursor" where
  "PatentsCursor_init =
     \<lparr>files_cursor = XMLChunkCursor_init, pc_eof = False, item_index = - 1\<rparr>"

definition PatentsCursor_Eof :: "'t PatentsCursor \<times> 't world \<Rightarrow> bool" where
  "PatentsCursor_Eof s = pc_eof (fst s)"

definition PatentsCursor_container_id :: "'t PatentsCursor \<times> 't world \<Rightarrow> int option" where
  "PatentsCursor_container_id s = XMLChunkCursor_Rowid (files_cursor (fst s))"

definition PatentsCursor_Rowid :: "'t PatentsCursor \<times> 't world \<Rightarrow> int" where
  "PatentsCursor_Rowid s = item_index (fst s)"

definition PatentsCursor_current_row_value :: "'t PatentsCursor \<times> 't world \<Rightarrow> 't option" where
  "PatentsCursor_current_row_value s = element_tree (files_cursor (fst s))"

text \<open>
  \<open>Column\<close>; the extractor of a column, \<open>table.get_value_extractor_by_ordinal(col)\<close>,
  is a parameter.
\<close>

definition PatentsCursor_Column ::
  "(int \<Rightarrow> 't option \<Rightarrow> val) \<Rightarrow> int \<Rightarrow> 't PatentsCursor \<times> 't world \<Rightarrow> val" where
  "PatentsCursor_Column get_value_extractor_by_ordinal col s =
     (if col = - 1 then IntV (PatentsCursor_Rowid s)
      else if col = 0 then val_of_int_option (XMLChunkCursor_Rowid (files_cursor (fst s)))
      else if col = 1 then val_of_int_option (XMLChunkCursor_Rowid (files_cursor (fst s)))
      else get_value_extractor_by_ordinal col (element_tree (files_cursor (fst s))))"

text \<open>\<open>Filter\<close>; \<open>ROWID_INDEX\<close> is a parameter for the same reason as \<open>CONTAINER_INDEX\<close>.\<close>

definition PatentsCursor_Filter ::
  "int \<Rightarrow> int \<Rightarrow> ('b \<Rightarrow> error + 't) \<Rightarrow> 'b list \<Rightarrow> int \<Rightarrow> int list
     \<Rightarrow> 't PatentsCursor \<times> 't world \<Rightarrow> error + ('t PatentsCursor \<times> 't world)" where
  "PatentsCursor_Filter CONTAINER_INDEX ROWID_INDEX parse data_source index_number
       constraint_args s =
     (case s of (self, w) \<Rightarrow>
        (case XMLChunkCursor_Filter CONTAINER_INDEX parse data_source index_number
                constraint_args (files_cursor self, w) of
           Inl e \<Rightarrow> Inl e
         | Inr (fc, w') \<Rightarrow>
             if index_number AND ROWID_INDEX \<noteq> 0
             then (case py_get constraint_args 1 of
                     Inl e \<Rightarrow> Inl e
                   | Inr r \<Rightarrow>
                       Inr (self\<lparr>files_cursor := fc, pc_eof := XMLChunkCursor_Eof fc,
                                  item_index := r\<rparr>, w'))
             else Inr (self\<lparr>files_cursor := fc, pc_eof := XMLChunkCursor_Eof fc,
                             item_index := 0\<rparr>, w')))"

definition PatentsCursor_Next ::
  "('b \<Rightarrow> error + 't) \<Rightarrow> 'b list \<Rightarrow> 't PatentsCursor \<times> 't world
     \<Rightarrow> error + ('t PatentsCursor \<times> 't world)" where
  "PatentsCursor_Next parse data_source s =
     (case s of (self, w) \<Rightarrow>
        (case XMLChunkCursor_Next parse data_source (files_cursor self, w) of
           Inl e \<Rightarrow> Inl e
         | Inr (fc, w') \<Rightarrow>
             Inr (self\<lparr>item_index := 0, files_cursor := fc, pc_eof := eof fc\<rparr>, w')))"

text \<open>
  A bound on the calls of \<open>Next\<close> that the patents cursor still answers before it is
  at \<open>Eof\<close>; it is used to show that the loop of a child cursor over it ends.
\<close>

definition PatentsCursor_remaining :: "'b list \<Rightarrow> 't PatentsCursor \<times> 't world \<Rightarrow> nat" where
  "PatentsCursor_remaining data_source s =
     (if pc_eof (fst s) then 0
      else 1 + (case file_index (files_cursor (fst s)) of
                  None \<Rightarrow> 0
                | Some i \<Rightarrow> nat (int (length data_source) - i)))"

section \<open>uspto.py: cursors over the elements of a parent row\<close>

text \<open>
  \<open>PatentsElementsCursor\<close> works on any parent cursor that offers \<open>Eof\<close>,
  \<open>current_row_value\<close> and \<open>Next\<close>; the three methods of the parent are parameters
  over the parent's state \<open>'p\<close>, which the cursor holds as \<open>parent_cursor\<close>. The
  multi-extraction function \<open>extract_multiple\<close> comes from the table's metadata and
  returns a list or \<open>None\<close>. The cursor's own \<open>eof\<close> is \<open>ec_eof\<close> here.
\<close>

record ('p, 'e) ElementsCursor =
  parent_cursor :: 'p
  elements :: "'e list option"
  element_index :: int
  ec_eof :: bool

text \<open>
  \<open>Next\<close> is a \<open>while True\<close> loop, left by a \<open>return\<close> or by an exception of the
  parent's \<open>Next\<close>; it returns \<open>None\<close> here when the loop runs forever.
  \<open>len(self.elements)\<close> is only reached with a non-empty list.
\<close>

partial_function (option) PatentsElementsCursor_Next ::
  "('p \<Rightarrow> bool) \<Rightarrow> ('p \<Rightarrow> 'r) \<Rightarrow> ('p \<Rightarrow> error + 'p) \<Rightarrow> ('r \<Rightarrow> 'e list option)
     \<Rightarrow> ('p, 'e) ElementsCursor \<Rightarrow> (error + ('p, 'e) ElementsCursor) option" where
  "PatentsElementsCursor_Next parent_Eof parent_current_row_value parent_Next
       extract_multiple self =
     (if parent_Eof (parent_cursor self) then Some (Inr (self\<lparr>ec_eof := True\<rparr>))
      else
        let self1 =
              (if py_not (elements self)
               then self\<lparr>elements :=
                           extract_multiple (parent_current_row_value (parent_cursor self)),
                         element_index := - 1\<rparr>
               else self)
        in if py_not (elements self1)
           then (case parent_Next (parent_cursor self1) of
                   Inl e \<Rightarrow> Some (Inl e)
                 | Inr p \<Rightarrow>
                     PatentsElementsCursor_Next parent_Eof parent_current_row_value
                       parent_Next extract_multiple
                       (self1\<lparr>parent_cursor := p, elements := None\<rparr>))
           else if element_index self1 + 1 < int (length (the (elements self1)))
           then Some (Inr (self1\<lparr>element_index := element_index self1 + 1,
                                  ec_eof := False\<rparr>))
           else (case parent_Next (parent_cursor self1) of
                   Inl e \<Rightarrow> Some (Inl e)
                 | Inr p \<Rightarrow>
                     PatentsElementsCursor_Next parent_Eof parent_current_row_value
                       parent_Next extract_multiple
                       (self1\<lparr>parent_cursor := p, elements := None\<rparr>)))"

declare PatentsElementsCursor_Next.simps [code]

text \<open>
  \<open>PatentsIpcrCurcor.Rowid\<close>: Python's \<open><<\<close> and \<open>|\<close> on unbounded integers.
\<close>

definition PatentsIpcrCurcor_Rowid :: "('p \<Rightarrow> int) \<Rightarrow> ('p, 'e) ElementsCursor \<Rightarrow> int" where
  "PatentsIpcrCurcor_Rowid parent_Rowid self =
     push_bit 14 (parent_Rowid (parent_cursor self)) OR element_index self"

text \<open>
  \<open>PatentsIpcrCurcor.Column\<close>. \<open>record_id\<close> and the \<open>Column\<close> of the base class
  \<open>ElementsCursor\<close> are defined in a module that is not part of the sources at hand;
  they are parameters. The parent's \<open>container_id\<close> is the third parameter.
\<close>

definition PatentsIpcrCurcor_Column ::
  "(('p, 'e) ElementsCursor \<Rightarrow> val) \<Rightarrow> ('p \<Rightarrow> int option)
     \<Rightarrow> (int \<Rightarrow> ('p, 'e) ElementsCursor \<Rightarrow> val) \<Rightarrow> int \<Rightarrow> ('p, 'e) ElementsCursor \<Rightarrow> val" where
  "PatentsIpcrCurcor_Column record_id parent_container_id super_Column col self =
     (if col = 0 then record_id self
      else if col = 2 then val_of_int_option (parent_container_id (parent_cursor self))
      else super_Column col self)"

section \<open>uspto.py: discovery of the containers\<close>

text \<open>The code point of the double quote, and the constants of the module.\<close>

definition QUOTE :: nat where
  "QUOTE = 34"

definition XML_DELIMITER :: str where
  "XML_DELIMITER =
     str_of ''<?xml version='' @ [QUOTE] @ str_of ''1.0'' @ [QUOTE] @ str_of '' encoding=''
       @ [QUOTE] @ str_of ''UTF-8'' @ [QUOTE] @ str_of ''?>''"

text \<open>\<open>s.split(sep)\<close>: the pieces between the occurrences of \<open>sep\<close>, found from the left.\<close>

fun split_from :: "'a list \<Rightarrow> 'a list \<Rightarrow> 'a list \<Rightarrow> 'a list list" where
  "split_from sep cur [] = [cur]"
| "split_from sep cur (c # cs) =
     (if prefix sep (c # cs) then cur # split_from sep [] (drop (length sep - 1) cs)
      else split_from sep (cur @ [c]) cs)"

definition py_split :: "'a list \<Rightarrow> 'a list \<Rightarrow> error + 'a list list" where
  "py_split s sep = (case sep of [] \<Rightarrow> Inl ValueError | _ # _ \<Rightarrow> Inr (split_from sep [] s))"

definition endswith :: "'a list \<Rightarrow> 'a list \<Rightarrow> bool" where
  "endswith s suff = suffix suff s"

text \<open>
  \<open>re.search(pattern, s)\<close> for the pattern \<open>file=Q([^Q]+)Q\<close>, \<open>Q\<close> the double
  quote, returning group 1 of the leftmost match: at the first position where \<open>file=Q\<close>
  starts and is followed by a non-empty run of characters other than \<open>Q\<close> and then by
  \<open>Q\<close>, the run.
\<close>

definition FILE_ATTR :: str where
  "FILE_ATTR = str_of ''file='' @ [QUOTE]"

fun re_search_file :: "str \<Rightarrow> str option" where
  "re_search_file [] = None"
| "re_search_file (c # cs) =
     (if prefix FILE_ATTR (c # cs)
      then (let rest = drop (length FILE_ATTR) (c # cs);
                name = takeWhile (\<lambda>x. x \<noteq> QUOTE) rest
            in if name \<noteq> [] \<and> length name < length rest then Some name
               else re_search_file cs)
      else re_search_file cs)"

text \<open>
  A zip archive is the list of its members, each a name with its decoded content
  (\<open>None\<close> when the member's bytes are not UTF-8, where \<open>decode\<close> raises
  UnicodeDecodeError). A directory is the list of its entries, each with its joined
  path, whether it is a regular file, and the archive it holds (\<open>None\<close> when the file
  is not a zip archive, where \<open>ZipFile\<close> raises BadZipFile). Of the attributes of
  \<open>ZipFiles\<close>, \<open>sample\<close> and the loop variables \<open>file_name\<close> and \<open>xml_info\<close>
  are read by no method and are left out.
\<close>

type_synonym archive = "(str \<times> str option) list"

record dir_entry =
  entry_path :: str
  entry_isfile :: bool
  entry_zip :: "archive option"

record ZipFiles =
  file_path :: "str list"
  unique_patent_xml_files :: "str list"
  patent_file_name :: "str list"

text \<open>The loop over the fragments of one member, on the two lists it appends to.\<close>

fun collect_fragments :: "str list \<Rightarrow> str list \<times> str list \<Rightarrow> error + (str list \<times> str list)" where
  "collect_fragments [] acc = Inr acc"
| "collect_fragments (xml_info # rest) acc =
     (if length xml_info = 0 then collect_fragments rest acc
      else (case re_search_file (take 200 xml_info) of
              None \<Rightarrow> Inl AttributeError
            | Some extracted_id \<Rightarrow>
                collect_fragments rest (fst acc @ [extracted_id], snd acc @ [xml_info])))"

text \<open>
  The body of the loop over the archives: the unpacking \<open>(self.file_name,) = xml_file\<close>
  raises ValueError unless exactly one member name ends in \<open>.xml\<close>. That name then
  occurs once among the members, so looking it up from the left finds the member.
\<close>

definition read_archive :: "archive \<Rightarrow> str list \<times> str list \<Rightarrow> error + (str list \<times> str list)" where
  "read_archive zip_ref acc =
     (case filter (\<lambda>file. endswith file (str_of ''.xml'')) (map fst zip_ref) of
        [file_name] \<Rightarrow>
          (case map_of zip_ref file_name of
             None \<Rightarrow> Inl KeyError
           | Some None \<Rightarrow> Inl UnicodeDecodeError
           | Some (Some xml_content) \<Rightarrow>
               (case py_split xml_content XML_DELIMITER of
                  Inl e \<Rightarrow> Inl e
                | Inr xml_files \<Rightarrow> collect_fragments xml_files acc))
      | _ \<Rightarrow> Inl ValueError)"

definition open_zip :: "dir_entry list \<Rightarrow> str \<Rightarrow> error + archive" where
  "open_zip directory p =
     (case find (\<lambda>e. entry_path e = p) directory of
        None \<Rightarrow> Inl IOError
      | Some e \<Rightarrow> (case entry_zip e of None \<Rightarrow> Inl BadZipFile | Some a \<Rightarrow> Inr a))"

fun read_archives ::
  "dir_entry list \<Rightarrow> str list \<Rightarrow> str list \<times> str list \<Rightarrow> error + (str list \<times> str list)" where
  "read_archives directory [] acc = Inr acc"
| "read_archives directory (uspto_record # rest) acc =
     (case open_zip directory uspto_record of
        Inl e \<Rightarrow> Inl e
      | Inr zip_ref \<Rightarrow>
          (case read_archive zip_ref acc of
             Inl e \<Rightarrow> Inl e
           | Inr acc' \<Rightarrow> read_archives directory rest acc'))"

definition ZipFiles_init :: "dir_entry list \<Rightarrow> (str \<Rightarrow> bool) \<Rightarrow> error + ZipFiles" where
  "ZipFiles_init directory sample_container =
     (let paths = map entry_path
                    (filter (\<lambda>e. entry_isfile e \<and> sample_container (entry_path e)) directory)
      in case read_archives directory paths ([], []) of
           Inl e \<Rightarrow> Inl e
         | Inr acc \<Rightarrow>
             Inr \<lparr>file_path = paths, unique_patent_xml_files = snd acc,
                  patent_file_name = fst acc\<rparr>)"

definition get_xml_files_array :: "ZipFiles \<Rightarrow> str list" where
  "get_xml_files_array self = unique_patent_xml_files self"

definition get_container_iterator :: "ZipFiles \<Rightarrow> int list" where
  "get_container_iterator self = map int [0 ..< length (unique_patent_xml_files self)]"

definition get_container_name :: "ZipFiles \<Rightarrow> int \<Rightarrow> error + str" where
  "get_container_name self fid = py_get (patent_file_name self) fid"

section \<open>csv_sources.py: the cursor over a delimited file\<close>

text \<open>
  The \<open>csv.reader\<close> over the opened file is an iterator of rows, each a list of
  fields; the cursor holds what is left of it. \<open>next(it, None)\<close> takes the first row
  or returns \<open>None\<close> at the end. The cursor's \<open>eof\<close> and \<open>item_index\<close> are
  \<open>csv_eof\<close> and \<open>csv_item_index\<close> here.
\<close>

definition py_next :: "'a list \<Rightarrow> 'a option \<times> 'a list" where
  "py_next it = (case it of [] \<Rightarrow> (None, []) | x # rest \<Rightarrow> (Some x, rest))"

record 'f CsvCursor =
  csv_eof :: bool
  csv_item_index :: int
  row_value :: "'f list option"
  reader :: "'f list list option"

definition CsvCursor_init :: "'f CsvCursor" where
  "CsvCursor_init = \<lparr>csv_eof = False, csv_item_index = - 1, row_value = None, reader = None\<rparr>"

definition CsvCursor_Next :: "'f CsvCursor \<Rightarrow> error + 'f CsvCursor" where
  "CsvCursor_Next self =
     (case reader self of
        None \<Rightarrow> Inl TypeError
      | Some it \<Rightarrow>
          (case py_next it of (v, it') \<Rightarrow>
             if py_not v then Inr (self\<lparr>row_value := v, reader := Some it', csv_eof := True\<rparr>)
             else Inr (self\<lparr>row_value := v, reader := Some it',
                             csv_item_index := csv_item_index self + 1\<rparr>)))"

text \<open>\<open>Filter\<close>; \<open>rows\<close> is what the reader over the data source yields.\<close>

definition CsvCursor_Filter :: "'f list list \<Rightarrow> 'f CsvCursor \<Rightarrow> error + 'f CsvCursor" where
  "CsvCursor_Filter rows self =
     CsvCursor_Next
       (self\<lparr>csv_eof := False, csv_item_index := - 1, reader := Some (snd (py_next rows))\<rparr>)"

definition CsvCursor_Eof :: "'f CsvCursor \<Rightarrow> bool" where
  "CsvCursor_Eof self = csv_eof self"

definition CsvCursor_Rowid :: "'f CsvCursor \<Rightarrow> int" where
  "CsvCursor_Rowid self = csv_item_index self"

section \<open>Document cache\<close>

lemma read_hit:
  "cached_id (fst w) = Some j \<Longrightarrow> read parse b j w = (Inr (cached_data (fst w)), w)"
  by (cases w) (simp add: read_def)

lemma read_miss:
  "cached_id (fst w) \<noteq> Some i \<Longrightarrow> parse b = Inr t \<Longrightarrow>
   read parse b i w =
     (Inr (Some t), (\<lparr>cached_id = Some i, cached_data = Some t\<rparr>, snd w + 1))"
  by (cases w) (auto simp: read_def)

lemma read_returns_caches:
  "read parse b j w = (Inr r, w1) \<Longrightarrow> cached_id (fst w1) = Some j \<and> cached_data (fst w1) = r"
  by (cases w) (auto simp: read_def split: if_splits sum.splits)

text \<open>
  Claim C1. After a call of \<open>read\<close> with id \<open>j\<close> that returned the tree \<open>r\<close>, a
  call with the same id returns \<open>r\<close> again, whatever bytes and parser it is given (so
  nothing is parsed), and leaves the cache and \<open>parse_counter\<close> as they were; a call
  with another id \<open>i\<close> whose bytes parse to \<open>t\<close> returns \<open>t\<close>, caches the pair
  \<open>(i, t)\<close> and adds exactly one to \<open>parse_counter\<close>. On a fresh cache every call is
  of the second kind.
\<close>

theorem cache_correctness:
  fixes parse :: "'b \<Rightarrow> error + 't" and w w1 :: "'t FileCache \<times> int"
  shows
  "(read parse b j w = (Inr r, w1) \<longrightarrow>
      (\<forall>(parse' :: 'b \<Rightarrow> error + 't) b'. read parse' b' j w1 = (Inr r, w1)) \<and>
      (\<forall>(parse' :: 'b \<Rightarrow> error + 't) b' i t. i \<noteq> j \<and> parse' b' = Inr t \<longrightarrow>
         read parse' b' i w1 =
           (Inr (Some t), (\<lparr>cached_id = Some i, cached_data = Some t\<rparr>, snd w1 + 1)))) \<and>
   (parse b = Inr t0 \<longrightarrow>
      read parse b j (FileCache_init, n) =
        (Inr (Some t0), (\<lparr>cached_id = Some j, cached_data = Some t0\<rparr>, n + 1)))"
proof (intro conjI impI allI)
  fix parse' :: "'b \<Rightarrow> error + 't" and b'
  assume a: "read parse b j w = (Inr r, w1)"
  from read_returns_caches [OF a] show "read parse' b' j w1 = (Inr r, w1)"
    by (simp add: read_hit)
next
  fix parse' :: "'b \<Rightarrow> error + 't" and b' i t
  assume a: "read parse b j w = (Inr r, w1)" and b: "i \<noteq> j \<and> parse' b' = Inr t"
  from read_returns_caches [OF a] b
  show "read parse' b' i w1 =
          (Inr (Some t), (\<lparr>cached_id = Some i, cached_data = Some t\<rparr>, snd w1 + 1))"
    by (intro read_miss) simp_all
next
  assume "parse b = Inr t0"
  then show "read parse b j (FileCache_init, n) =
        (Inr (Some t0), (\<lparr>cached_id = Some j, cached_data = Some t0\<rparr>, n + 1))"
    using read_miss [of "(FileCache_init, n)" j parse b t0] by (simp add: FileCache_init_def)
qed

text \<open>
  The theorem at a concrete run: a parser that rejects the chunk \<open>0\<close> and returns
  any other chunk as its own tree; three calls with the ids 3, 3 and 4.
\<close>

theorem cache_correctness_witness:
  "read (\<lambda>b::nat. if b = 0 then Inl ParseError else Inr b) 5 3 (FileCache_init, 0) =
     (Inr (Some 5), (\<lparr>cached_id = Some 3, cached_data = Some 5\<rparr>, 1)) \<and>
   read (\<lambda>b::nat. if b = 0 then Inl ParseError else Inr b) 9 3
       (\<lparr>cached_id = Some 3, cached_data = Some (5::nat)\<rparr>, 1) =
     (Inr (Some 5), (\<lparr>cached_id = Some 3, cached_data = Some 5\<rparr>, 1)) \<and>
   read (\<lambda>b::nat. if b = 0 then Inl ParseError else Inr b) 9 4
       (\<lparr>cached_id = Some 3, cached_data = Some (5::nat)\<rparr>, 1) =
     (Inr (Some 9), (\<lparr>cached_id = Some 4, cached_data = Some 9\<rparr>, 2))"
proof -
  let ?P = "\<lambda>b::nat. if b = 0 then Inl ParseError else Inr b"
  let ?w1 = "(\<lparr>cached_id = Some 3, cached_data = Some (5::nat)\<rparr>, 1::int)"
  note c = cache_correctness [of ?P 5 3 "(FileCache_init, 0)" "Some 5" ?w1 5 0]
  have first: "read ?P 5 3 (FileCache_init, 0) = (Inr (Some 5), ?w1)"
    using c by simp
  note after = c [THEN conjunct1, THEN mp, OF first]
  have hit: "read ?P 9 3 ?w1 = (Inr (Some 5), ?w1)"
    by (rule after [THEN conjunct1, THEN spec, THEN spec])
  have "read ?P 9 4 ?w1 =
      (Inr (Some 9), (\<lparr>cached_id = Some 4, cached_data = Some 9\<rparr>, snd ?w1 + 1))"
    by (rule after [THEN conjunct2, THEN spec, THEN spec, THEN spec, THEN spec, THEN mp]) simp
  then have miss: "read ?P 9 4 ?w1 = (Inr (Some 9), (\<lparr>cached_id = Some 4, cached_data = Some 9\<rparr>, 2))"
    by simp
  from first hit miss show ?thesis by simp
qed

section \<open>Row ids of the child rows\<close>

lemma pack_drop:
  assumes "0 \<le> c" "c < 2 ^ 14"
  shows "drop_bit 14 (push_bit 14 p OR c) = (p::int)"
proof -
  have "drop_bit 14 c = 0" using assms by (simp add: drop_bit_eq_div)
  then show ?thesis by (simp add: drop_bit_or drop_bit_push_bit)
qed

lemma pack_mask:
  assumes "0 \<le> c" "c < 2 ^ 14"
  shows "(push_bit 14 p OR c) AND mask 14 = (c::int)"
proof -
  have "take_bit 14 c = c" using assms by (simp add: take_bit_int_eq_self)
  then show ?thesis by (simp add: take_bit_eq_mask [symmetric] take_bit_or take_bit_push_bit)
qed

text \<open>
  Claim C4. With the parent's row id \<open>p\<close> and the element index \<open>c\<close> in
  \<open>0 .. 2^14 - 1\<close>, \<open>Rowid\<close> is \<open>(p << 14) | c\<close>; shifting it right by 14 gives
  \<open>p\<close>, masking its low 14 bits gives \<open>c\<close>, and a cursor with the same \<open>Rowid\<close>
  and an index in the same range has the same \<open>p\<close> and \<open>c\<close>.
\<close>

theorem child_rowid_packing:
  fixes self :: "('p, 'e) ElementsCursor"
  assumes "0 \<le> p" and "0 \<le> c" and "c < 2 ^ 14"
    and "parent_Rowid (parent_cursor self) = p" and "element_index self = c"
  shows "PatentsIpcrCurcor_Rowid parent_Rowid self = push_bit 14 p OR c \<and>
         drop_bit 14 (PatentsIpcrCurcor_Rowid parent_Rowid self) = p \<and>
         PatentsIpcrCurcor_Rowid parent_Rowid self AND mask 14 = c \<and>
         (\<forall>self' :: ('p, 'e) ElementsCursor.
            0 \<le> parent_Rowid (parent_cursor self') \<and>
            0 \<le> element_index self' \<and> element_index self' < 2 ^ 14 \<and>
            PatentsIpcrCurcor_Rowid parent_Rowid self' = PatentsIpcrCurcor_Rowid parent_Rowid self
            \<longrightarrow> parent_Rowid (parent_cursor self') = p \<and> element_index self' = c)"
proof -
  have r: "PatentsIpcrCurcor_Rowid parent_Rowid self = push_bit 14 p OR c"
    using assms by (simp add: PatentsIpcrCurcor_Rowid_def)
  have inj: "parent_Rowid (parent_cursor self') = p \<and> element_index self' = c"
    if a: "0 \<le> element_index self'" "element_index self' < 2 ^ 14"
      and e: "PatentsIpcrCurcor_Rowid parent_Rowid self' = PatentsIpcrCurcor_Rowid parent_Rowid self"
    for self' :: "('p, 'e) ElementsCursor"
  proof -
    let ?p' = "parent_Rowid (parent_cursor self')" and ?c' = "element_index self'"
    from e r have eq: "push_bit 14 ?p' OR ?c' = push_bit 14 p OR c"
      by (simp add: PatentsIpcrCurcor_Rowid_def)
    have "?p' = drop_bit 14 (push_bit 14 ?p' OR ?c')" by (rule pack_drop [OF a, symmetric])
    also have "\<dots> = drop_bit 14 (push_bit 14 p OR c)" by (simp only: eq)
    also have "\<dots> = p" by (rule pack_drop [OF assms(2,3)])
    finally have 1: "?p' = p" .
    have "?c' = (push_bit 14 ?p' OR ?c') AND mask 14" by (rule pack_mask [OF a, symmetric])
    also have "\<dots> = (push_bit 14 p OR c) AND mask 14" by (simp only: eq)
    also have "\<dots> = c" by (rule pack_mask [OF assms(2,3)])
    finally have 2: "?c' = c" .
    from 1 2 show ?thesis by simp
  qed
  have d: "drop_bit 14 (PatentsIpcrCurcor_Rowid parent_Rowid self) = p"
    unfolding r by (rule pack_drop [OF assms(2,3)])
  have m: "PatentsIpcrCurcor_Rowid parent_Rowid self AND mask 14 = c"
    unfolding r by (rule pack_mask [OF assms(2,3)])
  from r d m inj show ?thesis by blast
qed

theorem child_rowid_packing_witness:
  "PatentsIpcrCurcor_Rowid (\<lambda>p::int. p)
      \<lparr>parent_cursor = 3, elements = None :: nat list option, element_index = 5, ec_eof = False\<rparr>
     = 49157 \<and>
   drop_bit 14 (49157::int) = 3 \<and> (49157::int) AND mask 14 = 5"
proof -
  let ?s = "\<lparr>parent_cursor = 3::int, elements = None :: nat list option, element_index = 5,
             ec_eof = False\<rparr>"
  have h: "(0::int) \<le> 3" "(0::int) \<le> 5" "(5::int) < 2 ^ 14"
    "(\<lambda>p::int. p) (parent_cursor ?s) = 3" "element_index ?s = 5"
    by simp_all
  note t = child_rowid_packing [of 3 5 "\<lambda>p::int. p" ?s, OF h]
  have v: "push_bit 14 (3::int) OR 5 = 49157" by simp
  have r: "PatentsIpcrCurcor_Rowid (\<lambda>p::int. p) ?s = 49157"
    using t [THEN conjunct1] unfolding v .
  have d: "drop_bit 14 (49157::int) = 3"
    using t [THEN conjunct2, THEN conjunct1] unfolding r .
  have m: "(49157::int) AND mask 14 = 5"
    using t [THEN conjunct2, THEN conjunct2, THEN conjunct1] unfolding r .
  from r d m show ?thesis by (intro conjI)
qed

section \<open>Positioning the container cursor on one container\<close>

text \<open>
  Claim C10. In single-container mode (an \<open>index_number\<close> with the container bit)
  with a pinned index \<open>k\<close> that is at least the number of containers, \<open>Filter\<close>
  raises nothing: it returns with the cursor at \<open>Eof\<close>, no document fetched and the
  cache untouched, and a further \<open>Next\<close> changes nothing.
\<close>

theorem pinned_index_past_end:
  fixes parse :: "'b \<Rightarrow> error + 't"
  assumes "index_number \<noteq> 0" and "index_number AND CONTAINER_INDEX \<noteq> 0"
    and "py_get constraint_args 0 = Inr k" and "int (length data_source) \<le> k"
  shows "XMLChunkCursor_Filter CONTAINER_INDEX parse data_source index_number
              constraint_args (self, w) =
           Inr (self\<lparr>single_file := Some True, file_read := Some False,
                      file_index := Some (k - 1), eof := True\<rparr>, w) \<and>
         XMLChunkCursor_Eof (self\<lparr>single_file := Some True, file_read := Some False,
                      file_index := Some (k - 1), eof := True\<rparr>) \<and>
         XMLChunkCursor_Next parse data_source
             (self\<lparr>single_file := Some True, file_read := Some False,
                      file_index := Some (k - 1), eof := True\<rparr>, w) =
           Inr (self\<lparr>single_file := Some True, file_read := Some False,
                      file_index := Some (k - 1), eof := True\<rparr>, w)"
  using assms
  by (simp add: XMLChunkCursor_Filter_def XMLChunkCursor_Next_def XMLChunkCursor_Eof_def
      truthy_def)

theorem pinned_index_past_end_witness:
  "XMLChunkCursor_Filter 1 (\<lambda>b::nat. Inr b :: error + nat) [7, 8] 1 [2]
      (XMLChunkCursor_init, (FileCache_init, 0)) =
     Inr (\<lparr>eof = True, file_index = Some 1, single_file = Some True, file_read = Some False,
           element_tree = None\<rparr>, (FileCache_init, 0))"
proof -
  have h: "(1::int) \<noteq> 0" "(1::int) AND 1 \<noteq> 0" "py_get [2::int] 0 = Inr 2"
    "int (length [7::nat, 8]) \<le> 2"
    by (simp_all add: py_get_def)
  from pinned_index_past_end [of 1 1 "[2]" 2 "[7::nat, 8]" "\<lambda>b::nat. Inr b :: error + nat"
      XMLChunkCursor_init "(FileCache_init, 0)", OF h, THEN conjunct1]
  show ?thesis
    by (simp add: XMLChunkCursor_init_def)
qed

text \<open>
  Claim C5, amended. In single-container mode with a pinned index \<open>k\<close> such that
  \<open>0 \<le> k < len(data_source)\<close>, \<open>Filter\<close> leaves the cursor on container \<open>k\<close>, not
  at \<open>Eof\<close>, holding the tree that the cache returns for the chunk at \<open>k\<close> under the
  id \<open>k\<close>; the \<open>Next\<close> after it sets \<open>Eof\<close> and changes nothing else, however
  many containers there are.
\<close>

theorem pinned_index_one_container:
  fixes parse :: "'b \<Rightarrow> error + 't"
  assumes "index_number \<noteq> 0" and "index_number AND CONTAINER_INDEX \<noteq> 0"
    and "py_get constraint_args 0 = Inr k" and "0 \<le> k" and "k < int (length data_source)"
    and "read parse (data_source ! nat k) k w = (Inr tree, w')"
  shows "XMLChunkCursor_Filter CONTAINER_INDEX parse data_source index_number
              constraint_args (self, w) =
           Inr (self\<lparr>single_file := Some True, file_read := Some True,
                      file_index := Some k, element_tree := tree, eof := False\<rparr>, w') \<and>
         XMLChunkCursor_Next parse data_source
             (self\<lparr>single_file := Some True, file_read := Some True,
                      file_index := Some k, element_tree := tree, eof := False\<rparr>, w') =
           Inr (self\<lparr>single_file := Some True, file_read := Some True,
                      file_index := Some k, element_tree := tree, eof := True\<rparr>, w')"
  using assms
  by (simp add: XMLChunkCursor_Filter_def XMLChunkCursor_Next_def py_get_def truthy_def)

theorem pinned_index_one_container_witness:
  "XMLChunkCursor_Filter 1 (\<lambda>b::nat. Inr b :: error + nat) [7, 8, 9] 1 [1]
      (XMLChunkCursor_init, (FileCache_init, 0)) =
     Inr (\<lparr>eof = False, file_index = Some 1, single_file = Some True, file_read = Some True,
           element_tree = Some 8\<rparr>, (\<lparr>cached_id = Some 1, cached_data = Some 8\<rparr>, 1)) \<and>
   XMLChunkCursor_Next (\<lambda>b::nat. Inr b :: error + nat) [7, 8, 9]
      (\<lparr>eof = False, file_index = Some 1, single_file = Some True, file_read = Some True,
           element_tree = Some 8\<rparr>, (\<lparr>cached_id = Some 1, cached_data = Some 8\<rparr>, 1)) =
     Inr (\<lparr>eof = True, file_index = Some 1, single_file = Some True, file_read = Some True,
           element_tree = Some 8\<rparr>, (\<lparr>cached_id = Some 1, cached_data = Some 8\<rparr>, 1))"
proof -
  have h: "(1::int) \<noteq> 0" "(1::int) AND 1 \<noteq> 0" "py_get [1::int] 0 = Inr 1"
    "(0::int) \<le> 1" "1 < int (length [7::nat, 8, 9])"
    "read (\<lambda>b::nat. Inr b :: error + nat) ([7, 8, 9] ! nat 1) 1 (FileCache_init, 0) =
       (Inr (Some 8), (\<lparr>cached_id = Some 1, cached_data = Some 8\<rparr>, 1))"
    by (simp_all add: py_get_def read_def FileCache_init_def)
  from pinned_index_one_container [of 1 1 "[1]" 1 "[7::nat, 8, 9]"
      "\<lambda>b::nat. Inr b :: error + nat" "(FileCache_init, 0)" "Some 8"
      "(\<lparr>cached_id = Some 1, cached_data = Some 8\<rparr>, 1)" XMLChunkCursor_init, OF h]
  show ?thesis
    by (simp add: XMLChunkCursor_init_def)
qed

text \<open>
  Claim C5 as stated fails for a pinned index past the end: with one container and the
  pinned index 1, \<open>Filter\<close> leaves the cursor at \<open>Eof\<close> with no document and the
  parse counter still at 0, so no container is yielded.
\<close>

theorem pinned_index_counterexample:
  "XMLChunkCursor_Filter 1 (\<lambda>b::nat. Inr b :: error + nat) [7] 1 [1]
      (XMLChunkCursor_init, (FileCache_init, 0)) =
     Inr (\<lparr>eof = True, file_index = Some 0, single_file = Some True, file_read = Some False,
           element_tree = None\<rparr>, (FileCache_init, 0))"
  by (simp add: XMLChunkCursor_Filter_def XMLChunkCursor_Next_def XMLChunkCursor_init_def
      py_get_def truthy_def)

section \<open>Rows of the patents cursor and of its children\<close>

lemma XMLChunkCursor_Next_on_row:
  assumes "XMLChunkCursor_Next parse data_source (c0, w0) = Inr (c, w)" and "\<not> eof c"
  shows "\<exists>i chunk. file_index c0 = Some (i - 1) \<and> file_index c = Some i \<and>
           i < int (length data_source) \<and> py_get data_source i = Inr chunk \<and>
           read parse chunk i w0 = (Inr (element_tree c), w)"
proof -
  from assms obtain j where j: "file_index c0 = Some j"
    by (auto simp: XMLChunkCursor_Next_def split: if_splits option.splits)
  from assms j show ?thesis
    by (auto simp: XMLChunkCursor_Next_def split: if_splits sum.splits prod.splits)
qed

lemma PatentsCursor_Next_on_row:
  assumes "PatentsCursor_Next parse data_source p0 = Inr p" and "\<not> PatentsCursor_Eof p"
  shows "PatentsCursor_Rowid p = 0 \<and>
         (\<exists>i chunk. PatentsCursor_container_id p = Some i \<and>
           i < int (length data_source) \<and> py_get data_source i = Inr chunk \<and>
           read parse chunk i (snd p0) = (Inr (PatentsCursor_current_row_value p), snd p))"
proof -
  obtain s0 w0 where p0: "p0 = (s0, w0)" by (cases p0)
  obtain s w where p: "p = (s, w)" by (cases p)
  from assms p0 p have n: "XMLChunkCursor_Next parse data_source (files_cursor s0, w0) =
      Inr (files_cursor s, w)" and e: "\<not> eof (files_cursor s)" and r: "item_index s = 0"
    by (auto simp: PatentsCursor_Next_def PatentsCursor_Eof_def split: sum.splits prod.splits)
  from XMLChunkCursor_Next_on_row [OF n e] r show ?thesis
    by (auto simp: p0 p PatentsCursor_Rowid_def PatentsCursor_container_id_def
        XMLChunkCursor_Rowid_def PatentsCursor_current_row_value_def)
qed

text \<open>
  Claim C3, on a full scan of two containers: after \<open>Filter\<close> and one \<open>Next\<close> the
  cursor is on the second container (\<open>container_id\<close> is 1, and so is column 0) and not
  at \<open>Eof\<close>, while \<open>Rowid\<close> is 0, as it was on the first row. \<open>Rowid\<close> returns
  \<open>item_index\<close>, which \<open>Filter\<close> and \<open>Next\<close> both set to 0.
\<close>

theorem root_rowid_stays_zero:
  "PatentsCursor_Filter 1 2 (\<lambda>b::nat. Inr b :: error + nat) [7, 8] 0 []
       (PatentsCursor_init, (FileCache_init, 0)) =
     Inr (\<lparr>files_cursor = \<lparr>eof = False, file_index = Some 0, single_file = Some False,
                            file_read = Some True, element_tree = Some 7\<rparr>,
           pc_eof = False, item_index = 0\<rparr>,
          (\<lparr>cached_id = Some 0, cached_data = Some 7\<rparr>, 1)) \<and>
   PatentsCursor_Next (\<lambda>b::nat. Inr b :: error + nat) [7, 8]
       (\<lparr>files_cursor = \<lparr>eof = False, file_index = Some 0, single_file = Some False,
                            file_read = Some True, element_tree = Some 7\<rparr>,
           pc_eof = False, item_index = 0\<rparr>,
          (\<lparr>cached_id = Some 0, cached_data = Some 7\<rparr>, 1)) =
     Inr (\<lparr>files_cursor = \<lparr>eof = False, file_index = Some 1, single_file = Some False,
                            file_read = Some True, element_tree = Some 8\<rparr>,
           pc_eof = False, item_index = 0\<rparr>,
          (\<lparr>cached_id = Some 1, cached_data = Some 8\<rparr>, 2)) \<and>
   PatentsCursor_container_id
       (\<lparr>files_cursor = \<lparr>eof = False, file_index = Some 1, single_file = Some False,
                            file_read = Some True, element_tree = Some (8::nat)\<rparr>,
           pc_eof = False, item_index = 0\<rparr>,
          (\<lparr>cached_id = Some 1, cached_data = Some 8\<rparr>, 2)) = Some 1 \<and>
   PatentsCursor_Rowid
       (\<lparr>files_cursor = \<lparr>eof = False, file_index = Some 1, single_file = Some False,
                            file_read = Some True, element_tree = Some (8::nat)\<rparr>,
           pc_eof = False, item_index = 0\<rparr>,
          (\<lparr>cached_id = Some 1, cached_data = Some 8\<rparr>, 2)) = 0 \<and>
   PatentsCursor_Column (\<lambda>col t. NoneV) 0
       (\<lparr>files_cursor = \<lparr>eof = False, file_index = Some 1, single_file = Some False,
                            file_read = Some True, element_tree = Some (8::nat)\<rparr>,
           pc_eof = False, item_index = 0\<rparr>,
          (\<lparr>cached_id = Some 1, cached_data = Some 8\<rparr>, 2)) = IntV 1"
  by (simp add: PatentsCursor_Filter_def PatentsCursor_Column_def val_of_int_option_def PatentsCursor_Next_def XMLChunkCursor_Filter_def
      XMLChunkCursor_Next_def PatentsCursor_init_def XMLChunkCursor_init_def FileCache_init_def
      XMLChunkCursor_Eof_def PatentsCursor_container_id_def XMLChunkCursor_Rowid_def
      PatentsCursor_Rowid_def py_get_def read_def truthy_def)


text \<open>
  Claim C6, amended. On a row of the patents cursor, reached by \<open>Next\<close> or by a
  \<open>Filter\<close> without the row-id bit, column 2 of a child cursor over it is the integer
  \<open>i\<close> that is the parent's \<open>container_id\<close>: the position in \<open>data_source\<close> of the
  chunk whose tree, fetched through the cache under the id \<open>i\<close>, is the parent's
  current row. The parent's \<open>Rowid\<close> is 0 there.
\<close>

theorem foreign_key_is_container_index:
  fixes self :: "('t PatentsCursor \<times> 't world, 'e) ElementsCursor"
  assumes "PatentsCursor_Next parse data_source p0 = Inr (parent_cursor self) \<or>
           index_number AND ROWID_INDEX = 0 \<and>
           PatentsCursor_Filter CONTAINER_INDEX ROWID_INDEX parse data_source index_number
             constraint_args p0 = Inr (parent_cursor self)"
    and "\<not> PatentsCursor_Eof (parent_cursor self)"
  shows "\<exists>i chunk.
           PatentsIpcrCurcor_Column record_id PatentsCursor_container_id super_Column 2 self =
             IntV i \<and>
           i < int (length data_source) \<and> py_get data_source i = Inr chunk \<and>
           read parse chunk i (snd p0) =
             (Inr (PatentsCursor_current_row_value (parent_cursor self)),
              snd (parent_cursor self)) \<and>
           PatentsCursor_Rowid (parent_cursor self) = 0"
proof -
  let ?p = "parent_cursor self"
  obtain s0 w0 where p0: "p0 = (s0, w0)" by (cases p0)
  obtain s w where p: "?p = (s, w)" by (cases ?p)
  have "\<exists>c0. XMLChunkCursor_Next parse data_source (c0, w0) = Inr (files_cursor s, w) \<and>
          item_index s = 0"
    using assms(1)
  proof
    assume "PatentsCursor_Next parse data_source p0 = Inr ?p"
    then show ?thesis
      by (auto simp: p0 p PatentsCursor_Next_def split: sum.splits prod.splits)
  next
    assume "index_number AND ROWID_INDEX = 0 \<and>
            PatentsCursor_Filter CONTAINER_INDEX ROWID_INDEX parse data_source index_number
              constraint_args p0 = Inr ?p"
    then show ?thesis
      by (auto simp: p0 p PatentsCursor_Filter_def XMLChunkCursor_Filter_def
          split: sum.splits prod.splits if_splits)
  qed
  then obtain c0 where n: "XMLChunkCursor_Next parse data_source (c0, w0) =
      Inr (files_cursor s, w)" and r: "item_index s = 0" by blast
  from assms(2) have e: "\<not> eof (files_cursor s)"
    using n assms(1)
    by (auto simp: p0 p PatentsCursor_Eof_def PatentsCursor_Next_def PatentsCursor_Filter_def
        XMLChunkCursor_Eof_def split: sum.splits prod.splits)
  from XMLChunkCursor_Next_on_row [OF n e] r show ?thesis
    by (auto simp: p0 p PatentsIpcrCurcor_Column_def PatentsCursor_container_id_def
        XMLChunkCursor_Rowid_def val_of_int_option_def PatentsCursor_current_row_value_def
        PatentsCursor_Rowid_def)
qed


theorem foreign_key_is_container_index_witness:
  "\<exists>i chunk.
     PatentsIpcrCurcor_Column (\<lambda>s. NoneV) PatentsCursor_container_id (\<lambda>col s. NoneV) 2
       \<lparr>parent_cursor =
          (\<lparr>files_cursor = \<lparr>eof = False, file_index = Some 1, single_file = Some False,
                              file_read = Some True, element_tree = Some (8::nat)\<rparr>,
            pc_eof = False, item_index = 0\<rparr>,
           (\<lparr>cached_id = Some 1, cached_data = Some 8\<rparr>, 2)),
        elements = Some [True], element_index = 0, ec_eof = False\<rparr> = IntV i \<and>
     i < int (length [7::nat, 8]) \<and> py_get [7::nat, 8] i = Inr chunk \<and>
     read (\<lambda>b::nat. Inr b :: error + nat) chunk i
        (\<lparr>cached_id = Some 0, cached_data = Some 7\<rparr>, 1) =
       (Inr (Some 8), (\<lparr>cached_id = Some 1, cached_data = Some 8\<rparr>, 2)) \<and>
     PatentsCursor_Rowid
          (\<lparr>files_cursor = \<lparr>eof = False, file_index = Some 1, single_file = Some False,
                              file_read = Some True, element_tree = Some (8::nat)\<rparr>,
            pc_eof = False, item_index = 0\<rparr>,
           (\<lparr>cached_id = Some 1, cached_data = Some 8\<rparr>, 2)) = 0"
proof -
  let ?P = "\<lambda>b::nat. Inr b :: error + nat"
  let ?q = "(\<lparr>files_cursor = \<lparr>eof = False, file_index = Some 0, single_file = Some False,
                            file_read = Some True, element_tree = Some (7::nat)\<rparr>,
           pc_eof = False, item_index = 0\<rparr>,
          (\<lparr>cached_id = Some 0, cached_data = Some 7\<rparr>, 1::int))"
  let ?p = "(\<lparr>files_cursor = \<lparr>eof = False, file_index = Some 1, single_file = Some False,
                              file_read = Some True, element_tree = Some (8::nat)\<rparr>,
            pc_eof = False, item_index = 0\<rparr>,
           (\<lparr>cached_id = Some 1, cached_data = Some 8\<rparr>, 2::int))"
  let ?self = "\<lparr>parent_cursor = ?p, elements = Some [True], element_index = 0, ec_eof = False\<rparr>"
  have h1: "PatentsCursor_Next ?P [7, 8] ?q = Inr (parent_cursor ?self) \<or>
            (0::int) AND 2 = 0 \<and>
            PatentsCursor_Filter 1 2 ?P [7, 8] 0 [] ?q = Inr (parent_cursor ?self)"
    by (simp add: PatentsCursor_Next_def XMLChunkCursor_Next_def py_get_def read_def truthy_def)
  have h2: "\<not> PatentsCursor_Eof (parent_cursor ?self)"
    by (simp add: PatentsCursor_Eof_def)
  from foreign_key_is_container_index [of ?P "[7, 8]" ?q ?self 0 2 1 "[]" "\<lambda>s. NoneV"
      "\<lambda>col s. NoneV", OF h1 h2]
  show ?thesis
    by (simp add: PatentsCursor_current_row_value_def)
qed

text \<open>
  Claim C6 as stated fails: a directory with one archive whose member holds one
  document with the attribute \<open>file="a.xml"\<close>. On the only child row, column 2 is the
  integer 0; the display name of the parent's container is the text \<open>a.xml\<close>.
\<close>

theorem foreign_key_counterexample:
  "(case ZipFiles_init
           [\<lparr>entry_path = str_of ''d/w.zip'', entry_isfile = True,
             entry_zip = Some [(str_of ''w.xml'',
               Some (XML_DELIMITER @ str_of ''<p file='' @ [QUOTE] @ str_of ''a.xml''
                       @ [QUOTE] @ str_of ''/>''))]\<rparr>]
           (\<lambda>n. True) of
      Inl e \<Rightarrow> False
    | Inr z \<Rightarrow>
        (case PatentsCursor_Filter 1 2 (\<lambda>b. Inr (length b) :: error + nat)
                (get_xml_files_array z) 0 [] (PatentsCursor_init, (FileCache_init, 0)) of
           Inl e \<Rightarrow> False
         | Inr p \<Rightarrow>
             (case PatentsElementsCursor_Next PatentsCursor_Eof PatentsCursor_current_row_value
                     (PatentsCursor_Next (\<lambda>b. Inr (length b) :: error + nat)
                        (get_xml_files_array z))
                     (\<lambda>t. Some [t])
                     \<lparr>parent_cursor = p, elements = None, element_index = - 1,
                      ec_eof = False\<rparr> of
                Some (Inr c) \<Rightarrow>
                  \<not> ec_eof c \<and>
                  PatentsIpcrCurcor_Column (\<lambda>s. NoneV) PatentsCursor_container_id
                      (\<lambda>col s. NoneV) 2 c = IntV 0 \<and>
                  get_container_name z 0 = Inr (str_of ''a.xml'') \<and>
                  PatentsIpcrCurcor_Column (\<lambda>s. NoneV) PatentsCursor_container_id
                      (\<lambda>col s. NoneV) 2 c \<noteq> StrV (str_of ''a.xml'')
              | _ \<Rightarrow> False)))"
  by code_simp

section \<open>The cursor over a delimited file\<close>

lemma CsvCursor_Filter_first_record:
  "r \<noteq> [] \<Longrightarrow>
   CsvCursor_Filter (header # r # rest) self =
     Inr (self\<lparr>csv_eof := False, csv_item_index := 0, row_value := Some r,
               reader := Some rest\<rparr>)"
  by (cases r) (simp_all add: CsvCursor_Filter_def CsvCursor_Next_def py_next_def)

lemma CsvCursor_Next_record:
  "reader self = Some (r # rest) \<Longrightarrow> r \<noteq> [] \<Longrightarrow>
   CsvCursor_Next self =
     Inr (self\<lparr>row_value := Some r, reader := Some rest,
               csv_item_index := csv_item_index self + 1\<rparr>)"
  by (cases r) (simp_all add: CsvCursor_Next_def py_next_def)

lemma CsvCursor_Next_end:
  "reader self = Some [] \<Longrightarrow>
   CsvCursor_Next self = Inr (self\<lparr>row_value := None, reader := Some [], csv_eof := True\<rparr>)"
  by (simp add: CsvCursor_Next_def py_next_def)

lemma CsvCursor_Next_empty_record:
  "reader self = Some ([] # rest) \<Longrightarrow>
   CsvCursor_Next self = Inr (self\<lparr>row_value := Some [], reader := Some rest, csv_eof := True\<rparr>)"
  by (simp add: CsvCursor_Next_def py_next_def)

text \<open>
  Claim C9, on a file with a header, a record, an empty line and a second record (the
  reader yields the empty list for the empty line). \<open>Filter\<close> skips the header and
  stops on the first record with row id 0. The following \<open>Next\<close> reads the empty
  record and sets \<open>Eof\<close>, although the reader has not reached its end: it still
  holds the second record, which is never served.
\<close>

theorem csv_eof_on_empty_record:
  "CsvCursor_Filter [[''id'', ''name''], [''1'', ''a''], [], [''2'', ''b'']] CsvCursor_init =
     Inr \<lparr>csv_eof = False, csv_item_index = 0, row_value = Some [''1'', ''a''],
          reader = Some [[], [''2'', ''b'']]\<rparr> \<and>
   CsvCursor_Next \<lparr>csv_eof = False, csv_item_index = 0, row_value = Some [''1'', ''a''],
          reader = Some [[], [''2'', ''b'']]\<rparr> =
     Inr \<lparr>csv_eof = True, csv_item_index = 0, row_value = Some [],
          reader = Some [[''2'', ''b'']]\<rparr> \<and>
   py_next [[''2'', ''b'']] = (Some [''2'', ''b''], [])"
  by (simp add: CsvCursor_Filter_def CsvCursor_Next_def CsvCursor_init_def py_next_def)

section \<open>Discovery of the containers\<close>

lemma XML_DELIMITER_nonempty: "py_split s XML_DELIMITER = Inr (split_from XML_DELIMITER [] s)"
  by (simp add: py_split_def XML_DELIMITER_def split: list.splits)

lemma collect_fragments_fails:
  "f \<in> set fs \<Longrightarrow> f \<noteq> [] \<Longrightarrow> re_search_file (take 200 f) = None \<Longrightarrow>
   collect_fragments fs acc = Inl AttributeError"
proof (induction fs arbitrary: acc)
  case Nil
  then show ?case by simp
next
  case (Cons g fs)
  show ?case
  proof (cases "g = f")
    case True
    with Cons.prems show ?thesis by simp
  next
    case False
    with Cons.prems have "f \<in> set fs" by simp
    from Cons.IH [OF this Cons.prems(2,3)] show ?thesis
      by (simp split: option.splits)
  qed
qed

lemma collect_fragments_succeeds:
  "collect_fragments fs acc = Inr acc' \<Longrightarrow>
   \<exists>ns. fst acc' = fst acc @ ns \<and>
        map Some ns = map (\<lambda>f. re_search_file (take 200 f)) (filter (\<lambda>f. f \<noteq> []) fs) \<and>
        snd acc' = snd acc @ filter (\<lambda>f. f \<noteq> []) fs"
proof (induction fs arbitrary: acc)
  case Nil
  then show ?case by simp
next
  case (Cons g fs)
  show ?case
  proof (cases "g = []")
    case True
    with Cons show ?thesis by simp
  next
    case False
    with Cons.prems obtain n where n: "re_search_file (take 200 g) = Some n"
      and c: "collect_fragments fs (fst acc @ [n], snd acc @ [g]) = Inr acc'"
      by (auto split: option.splits)
    from Cons.IH [OF c] obtain ns where
      "fst acc' = (fst acc @ [n]) @ ns"
      "map Some ns = map (\<lambda>f. re_search_file (take 200 f)) (filter (\<lambda>f. f \<noteq> []) fs)"
      "snd acc' = (snd acc @ [g]) @ filter (\<lambda>f. f \<noteq> []) fs"
      by auto
    with False n show ?thesis
      by (intro exI [of _ "n # ns"]) simp
  qed
qed

lemma read_archives_fails:
  "p \<in> set paths \<Longrightarrow> open_zip directory p = Inr a \<Longrightarrow>
   (\<And>acc. \<exists>err. read_archive a acc = Inl err) \<Longrightarrow>
   \<exists>err. read_archives directory paths acc = Inl err"
proof (induction paths arbitrary: acc)
  case Nil
  then show ?case by simp
next
  case (Cons q paths)
  show ?case
  proof (cases "q = p")
    case True
    from Cons.prems(3) [of acc] obtain err where "read_archive a acc = Inl err" by blast
    with True Cons.prems(2) show ?thesis by simp
  next
    case False
    with Cons.prems have "p \<in> set paths" by simp
    from Cons.IH [OF this Cons.prems(2,3)] show ?thesis
      by (auto split: sum.splits)
  qed
qed

lemma open_zip_entry:
  "e \<in> set directory \<Longrightarrow> distinct (map entry_path directory) \<Longrightarrow> entry_zip e = Some a \<Longrightarrow>
   open_zip directory (entry_path e) = Inr a"
proof (induction directory)
  case Nil
  then show ?case by simp
next
  case (Cons d directory)
  then show ?case
    by (cases "d = e") (auto simp: open_zip_def)
qed

lemma read_archive_lengths:
  "read_archive a acc = Inr acc' \<Longrightarrow> length (fst acc) = length (snd acc) \<Longrightarrow>
   length (fst acc') = length (snd acc')"
proof -
  assume r: "read_archive a acc = Inr acc'" and l: "length (fst acc) = length (snd acc)"
  from r obtain xml_content where "collect_fragments (split_from XML_DELIMITER [] xml_content) acc = Inr acc'"
    by (auto simp: read_archive_def XML_DELIMITER_nonempty split: list.splits option.splits)
  from collect_fragments_succeeds [OF this] obtain ns where
    a: "fst acc' = fst acc @ ns"
    and b: "map Some ns = map (\<lambda>f. re_search_file (take 200 f))
              (filter (\<lambda>f. f \<noteq> []) (split_from XML_DELIMITER [] xml_content))"
    and c: "snd acc' = snd acc @ filter (\<lambda>f. f \<noteq> []) (split_from XML_DELIMITER [] xml_content)"
    by blast
  from b have "length ns = length (filter (\<lambda>f. f \<noteq> []) (split_from XML_DELIMITER [] xml_content))"
    by (metis length_map)
  with a c l show ?thesis by simp
qed

lemma read_archives_lengths:
  "read_archives directory paths acc = Inr acc' \<Longrightarrow> length (fst acc) = length (snd acc) \<Longrightarrow>
   length (fst acc') = length (snd acc')"
proof (induction paths arbitrary: acc)
  case Nil
  then show ?case by simp
next
  case (Cons q paths)
  from Cons.prems(1) obtain a acc1 where "read_archive a acc = Inr acc1"
    and r: "read_archives directory paths acc1 = Inr acc'"
    by (auto split: sum.splits)
  from read_archive_lengths [OF this(1) Cons.prems(2)] Cons.IH [OF r] show ?case by simp
qed


text \<open>
  Claim C7. Take an archive that discovery processes: the zip archive of a regular file
  of the directory that the sampling function accepts. If the number of its member
  names ending in \<open>.xml\<close> is not one, reading it raises ValueError; if it has one such
  member and one of the non-empty fragments of the member's text has no \<open>file\<close>
  attribute in its first 200 characters, reading it raises AttributeError. In both
  cases \<open>ZipFiles.__init__\<close> raises: the archive or fragment is not skipped.
\<close>

theorem discovery_faults_are_fatal:
  assumes "e \<in> set directory" and "distinct (map entry_path directory)"
    and "entry_isfile e" and "sample_container (entry_path e)"
    and "entry_zip e = Some zip_ref"
  shows "(length (filter (\<lambda>file. endswith file (str_of ''.xml'')) (map fst zip_ref)) \<noteq> 1 \<longrightarrow>
            read_archive zip_ref acc = Inl ValueError \<and>
            (\<exists>err. ZipFiles_init directory sample_container = Inl err)) \<and>
         (filter (\<lambda>file. endswith file (str_of ''.xml'')) (map fst zip_ref) = [file_name] \<and>
          map_of zip_ref file_name = Some (Some xml_content) \<and>
          f \<in> set (split_from XML_DELIMITER [] xml_content) \<and> f \<noteq> [] \<and>
          re_search_file (take 200 f) = None \<longrightarrow>
            read_archive zip_ref acc = Inl AttributeError \<and>
            (\<exists>err. ZipFiles_init directory sample_container = Inl err))"
proof -
  let ?paths = "map entry_path
                  (filter (\<lambda>e. entry_isfile e \<and> sample_container (entry_path e)) directory)"
  have p: "entry_path e \<in> set ?paths" using assms(1,3,4) by auto
  have o: "open_zip directory (entry_path e) = Inr zip_ref"
    by (rule open_zip_entry [OF assms(1,2,5)])
  have init: "\<exists>err. ZipFiles_init directory sample_container = Inl err"
    if "\<And>acc. \<exists>err. read_archive zip_ref acc = Inl err"
  proof -
    from read_archives_fails [OF p o that, of "([], [])"]
    obtain err where "read_archives directory ?paths ([], []) = Inl err" by blast
    then show ?thesis by (simp add: ZipFiles_init_def)
  qed
  have v: "read_archive zip_ref acc = Inl ValueError"
    if "length (filter (\<lambda>file. endswith file (str_of ''.xml'')) (map fst zip_ref)) \<noteq> 1"
    for acc
    using that by (auto simp del: filter_map length_filter_map simp: read_archive_def split: list.splits)
  have t: "read_archive zip_ref acc = Inl AttributeError"
    if "filter (\<lambda>file. endswith file (str_of ''.xml'')) (map fst zip_ref) = [file_name]"
      and "map_of zip_ref file_name = Some (Some xml_content)"
      and "f \<in> set (split_from XML_DELIMITER [] xml_content)" and "f \<noteq> []"
      and "re_search_file (take 200 f) = None"
    for acc
    using that collect_fragments_fails [OF that(3,4,5)]
    by (simp add: read_archive_def XML_DELIMITER_nonempty)
  show ?thesis
  proof (intro conjI impI)
    assume a: "length (filter (\<lambda>file. endswith file (str_of ''.xml'')) (map fst zip_ref)) \<noteq> 1"
    from v [OF a] show "read_archive zip_ref acc = Inl ValueError" .
    from v [OF a] show "\<exists>err. ZipFiles_init directory sample_container = Inl err"
      by (intro init) blast
  next
    assume a: "filter (\<lambda>file. endswith file (str_of ''.xml'')) (map fst zip_ref) = [file_name] \<and>
          map_of zip_ref file_name = Some (Some xml_content) \<and>
          f \<in> set (split_from XML_DELIMITER [] xml_content) \<and> f \<noteq> [] \<and>
          re_search_file (take 200 f) = None"
    then have b: "read_archive zip_ref acc = Inl AttributeError" for acc
      by (intro t) simp_all
    from b show "read_archive zip_ref acc = Inl AttributeError" .
    from b show "\<exists>err. ZipFiles_init directory sample_container = Inl err"
      by (intro init) blast
  qed
qed

theorem discovery_faults_are_fatal_witness:
  "read_archive [(str_of ''a.xml'', Some (str_of ''x'')), (str_of ''b.xml'', Some (str_of ''y''))]
      ([], []) = Inl ValueError \<and>
   (\<exists>err. ZipFiles_init
       [\<lparr>entry_path = str_of ''d/w.zip'', entry_isfile = True,
         entry_zip = Some [(str_of ''a.xml'', Some (str_of ''x'')),
                           (str_of ''b.xml'', Some (str_of ''y''))]\<rparr>]
       (\<lambda>n. True) = Inl err) \<and>
   read_archive [(str_of ''a.xml'', Some (XML_DELIMITER @ str_of ''<p/>''))] ([], []) =
     Inl AttributeError \<and>
   (\<exists>err. ZipFiles_init
       [\<lparr>entry_path = str_of ''d/w.zip'', entry_isfile = True,
         entry_zip = Some [(str_of ''a.xml'', Some (XML_DELIMITER @ str_of ''<p/>''))]\<rparr>]
       (\<lambda>n. True) = Inl err)"
proof -
  let ?A = "[(str_of ''a.xml'', Some (str_of ''x'')), (str_of ''b.xml'', Some (str_of ''y''))]"
  let ?B = "[(str_of ''a.xml'', Some (XML_DELIMITER @ str_of ''<p/>''))]"
  let ?D = "\<lambda>a. [\<lparr>entry_path = str_of ''d/w.zip'', entry_isfile = True, entry_zip = Some a\<rparr>]"
  have d: "\<lparr>entry_path = str_of ''d/w.zip'', entry_isfile = True, entry_zip = Some a\<rparr> \<in> set (?D a)"
    "distinct (map entry_path (?D a))"
    "entry_isfile \<lparr>entry_path = str_of ''d/w.zip'', entry_isfile = True, entry_zip = Some a\<rparr>"
    "(\<lambda>n. True) (entry_path \<lparr>entry_path = str_of ''d/w.zip'', entry_isfile = True,
        entry_zip = Some a\<rparr>)"
    "entry_zip \<lparr>entry_path = str_of ''d/w.zip'', entry_isfile = True, entry_zip = Some a\<rparr> =
       Some a" for a
    by simp_all
  have a1: "length (filter (\<lambda>file. endswith file (str_of ''.xml'')) (map fst ?A)) \<noteq> 1"
    by code_simp
  have b1: "filter (\<lambda>file. endswith file (str_of ''.xml'')) (map fst ?B) = [str_of ''a.xml''] \<and>
          map_of ?B (str_of ''a.xml'') = Some (Some (XML_DELIMITER @ str_of ''<p/>'')) \<and>
          str_of ''<p/>'' \<in> set (split_from XML_DELIMITER [] (XML_DELIMITER @ str_of ''<p/>'')) \<and>
          str_of ''<p/>'' \<noteq> [] \<and>
          re_search_file (take 200 (str_of ''<p/>'')) = None"
    by code_simp
  note ta = discovery_faults_are_fatal [where directory = "?D ?A"
      and sample_container = "\<lambda>n. True" and zip_ref = ?A and acc = "([], [])", OF d,
      THEN conjunct1, THEN mp, OF a1]
  note tb = discovery_faults_are_fatal [where directory = "?D ?B"
      and sample_container = "\<lambda>n. True" and zip_ref = ?B and acc = "([], [])"
      and file_name = "str_of ''a.xml''" and xml_content = "XML_DELIMITER @ str_of ''<p/>''"
      and f = "str_of ''<p/>''", OF d,
      THEN conjunct2, THEN mp, OF b1]
  from ta tb show ?thesis by (intro conjI) (erule conjunct1 conjunct2)+
qed


text \<open>
  Claim C8, amended. When an archive is read without an exception, its single XML
  member's text is split on the delimiter, and the containers appended are exactly the
  non-empty fragments, in order, each with one name appended (the \<open>file\<close> attribute
  found in its first 200 characters), so as many names as non-empty fragments are
  added. After \<open>__init__\<close> the list of names and the list of containers have the same
  length, and the container iterator runs over \<open>0 .. len - 1\<close>.
\<close>

theorem container_count:
  "(read_archive zip_ref (names0, files0) = Inr (names, files) \<longrightarrow>
      (\<exists>file_name xml_content ns.
          filter (\<lambda>file. endswith file (str_of ''.xml'')) (map fst zip_ref) = [file_name] \<and>
          map_of zip_ref file_name = Some (Some xml_content) \<and>
          files = files0 @ filter (\<lambda>f. f \<noteq> []) (split_from XML_DELIMITER [] xml_content) \<and>
          names = names0 @ ns \<and>
          map Some ns = map (\<lambda>f. re_search_file (take 200 f))
                          (filter (\<lambda>f. f \<noteq> []) (split_from XML_DELIMITER [] xml_content)) \<and>
          length ns =
            length (filter (\<lambda>f. f \<noteq> []) (split_from XML_DELIMITER [] xml_content)))) \<and>
   (ZipFiles_init directory sample_container = Inr z \<longrightarrow>
      length (patent_file_name z) = length (unique_patent_xml_files z) \<and>
      get_container_iterator z = map int [0 ..< length (patent_file_name z)])"
proof -
  have one: "\<exists>file_name xml_content ns.
          filter (\<lambda>file. endswith file (str_of ''.xml'')) (map fst zip_ref) = [file_name] \<and>
          map_of zip_ref file_name = Some (Some xml_content) \<and>
          files = files0 @ filter (\<lambda>f. f \<noteq> []) (split_from XML_DELIMITER [] xml_content) \<and>
          names = names0 @ ns \<and>
          map Some ns = map (\<lambda>f. re_search_file (take 200 f))
                          (filter (\<lambda>f. f \<noteq> []) (split_from XML_DELIMITER [] xml_content)) \<and>
          length ns =
            length (filter (\<lambda>f. f \<noteq> []) (split_from XML_DELIMITER [] xml_content))"
    if r: "read_archive zip_ref (names0, files0) = Inr (names, files)"
  proof -
    from r obtain file_name xml_content where
      m: "filter (\<lambda>file. endswith file (str_of ''.xml'')) (map fst zip_ref) = [file_name]"
        "map_of zip_ref file_name = Some (Some xml_content)"
      and c: "collect_fragments (split_from XML_DELIMITER [] xml_content) (names0, files0) =
                Inr (names, files)"
      by (auto simp del: filter_map simp: read_archive_def XML_DELIMITER_nonempty
          split: list.splits option.splits)
    let ?fs = "filter (\<lambda>f. f \<noteq> []) (split_from XML_DELIMITER [] xml_content)"
    from collect_fragments_succeeds [OF c] obtain ns where
      n: "names = names0 @ ns" "map Some ns = map (\<lambda>f. re_search_file (take 200 f)) ?fs"
        "files = files0 @ ?fs"
      by auto
    from n(2) have "length ns = length ?fs" by (metis length_map)
    with m n show ?thesis by blast
  qed
  have all: "length (patent_file_name z) = length (unique_patent_xml_files z) \<and>
      get_container_iterator z = map int [0 ..< length (patent_file_name z)]"
    if i: "ZipFiles_init directory sample_container = Inr z"
  proof -
    from i obtain acc where
      a: "read_archives directory
            (map entry_path
               (filter (\<lambda>e. entry_isfile e \<and> sample_container (entry_path e)) directory))
            ([], []) = Inr acc"
      and z: "patent_file_name z = fst acc" "unique_patent_xml_files z = snd acc"
      by (auto simp: ZipFiles_init_def Let_def split: sum.splits)
    from read_archives_lengths [OF a] z show ?thesis
      by (simp add: get_container_iterator_def)
  qed
  from one all show ?thesis by blast
qed

theorem container_count_witness:
  "(\<exists>file_name xml_content ns.
      filter (\<lambda>file. endswith file (str_of ''.xml''))
        (map fst [(str_of ''readme.txt'', Some (str_of ''r'')),
                  (str_of ''w.xml'',
                   Some (XML_DELIMITER @ (str_of ''<p file='' @ [QUOTE] @ str_of ''a'' @ [QUOTE])
                           @ XML_DELIMITER @ XML_DELIMITER
                           @ (str_of ''<q file='' @ [QUOTE] @ str_of ''b'' @ [QUOTE])))]) = [file_name] \<and>
      map_of [(str_of ''readme.txt'', Some (str_of ''r'')),
              (str_of ''w.xml'',
               Some (XML_DELIMITER @ (str_of ''<p file='' @ [QUOTE] @ str_of ''a'' @ [QUOTE])
                       @ XML_DELIMITER @ XML_DELIMITER
                       @ (str_of ''<q file='' @ [QUOTE] @ str_of ''b'' @ [QUOTE])))] file_name = Some (Some xml_content) \<and>
      [str_of ''<p file='' @ [QUOTE] @ str_of ''a'' @ [QUOTE],
       str_of ''<q file='' @ [QUOTE] @ str_of ''b'' @ [QUOTE]] =
        [] @ filter (\<lambda>f. f \<noteq> []) (split_from XML_DELIMITER [] xml_content) \<and>
      [str_of ''a'', str_of ''b''] = [] @ ns \<and>
      map Some ns = map (\<lambda>f. re_search_file (take 200 f))
                      (filter (\<lambda>f. f \<noteq> []) (split_from XML_DELIMITER [] xml_content)) \<and>
      length ns = length (filter (\<lambda>f. f \<noteq> []) (split_from XML_DELIMITER [] xml_content))) \<and>
   length (patent_file_name
      \<lparr>file_path = [str_of ''d/w.zip''],
       unique_patent_xml_files = [str_of ''<p file='' @ [QUOTE] @ str_of ''a'' @ [QUOTE],
                                  str_of ''<q file='' @ [QUOTE] @ str_of ''b'' @ [QUOTE]],
       patent_file_name = [str_of ''a'', str_of ''b'']\<rparr>) =
   length (unique_patent_xml_files
      \<lparr>file_path = [str_of ''d/w.zip''],
       unique_patent_xml_files = [str_of ''<p file='' @ [QUOTE] @ str_of ''a'' @ [QUOTE],
                                  str_of ''<q file='' @ [QUOTE] @ str_of ''b'' @ [QUOTE]],
       patent_file_name = [str_of ''a'', str_of ''b'']\<rparr>)"
proof -
  let ?doc1 = "str_of ''<p file='' @ [QUOTE] @ str_of ''a'' @ [QUOTE]"
  let ?doc2 = "str_of ''<q file='' @ [QUOTE] @ str_of ''b'' @ [QUOTE]"
  let ?A = "[(str_of ''readme.txt'', Some (str_of ''r'')),
             (str_of ''w.xml'',
              Some (XML_DELIMITER @ ?doc1 @ XML_DELIMITER @ XML_DELIMITER @ ?doc2))]"
  let ?D = "[\<lparr>entry_path = str_of ''d/w.zip'', entry_isfile = True, entry_zip = Some ?A\<rparr>,
             \<lparr>entry_path = str_of ''d/sub'', entry_isfile = False, entry_zip = None\<rparr>]"
  let ?Z = "\<lparr>file_path = [str_of ''d/w.zip''], unique_patent_xml_files = [?doc1, ?doc2],
             patent_file_name = [str_of ''a'', str_of ''b'']\<rparr>"
  have h1: "read_archive ?A ([], []) = Inr ([str_of ''a'', str_of ''b''], [?doc1, ?doc2])"
    by code_simp
  have h2: "ZipFiles_init ?D (\<lambda>n. True) = Inr ?Z"
    by code_simp
  note t = container_count [where zip_ref = ?A and ?names0.0 = "[]" and ?files0.0 = "[]"
      and names = "[str_of ''a'', str_of ''b'']" and files = "[?doc1, ?doc2]"
      and directory = ?D and sample_container = "\<lambda>n. True" and z = ?Z]
  from t [THEN conjunct1, THEN mp, OF h1] t [THEN conjunct2, THEN mp, OF h2, THEN conjunct1]
  show ?thesis by (rule conjI)
qed

text \<open>
  Claim C8 as stated counts distinct names. An archive whose two documents carry the
  same \<open>file\<close> attribute is read into two containers with two equal names: one
  distinct name for two non-empty fragments.
\<close>

theorem container_count_counterexample:
  "ZipFiles_init
     [\<lparr>entry_path = str_of ''d/w.zip'', entry_isfile = True,
       entry_zip = Some [(str_of ''w.xml'',
         Some (XML_DELIMITER @ str_of ''<p file='' @ [QUOTE] @ str_of ''a'' @ [QUOTE]
               @ XML_DELIMITER @ str_of ''<q file='' @ [QUOTE] @ str_of ''a'' @ [QUOTE]))]\<rparr>]
     (\<lambda>n. True) =
     Inr \<lparr>file_path = [str_of ''d/w.zip''],
          unique_patent_xml_files = [str_of ''<p file='' @ [QUOTE] @ str_of ''a'' @ [QUOTE],
                                     str_of ''<q file='' @ [QUOTE] @ str_of ''a'' @ [QUOTE]],
          patent_file_name = [str_of ''a'', str_of ''a'']\<rparr> \<and>
   card (set [str_of ''a'', str_of ''a'']) = 1 \<and>
   length (filter (\<lambda>f. f \<noteq> [])
      (split_from XML_DELIMITER []
         (XML_DELIMITER @ str_of ''<p file='' @ [QUOTE] @ str_of ''a'' @ [QUOTE]
               @ XML_DELIMITER @ str_of ''<q file='' @ [QUOTE] @ str_of ''a'' @ [QUOTE]))) = 2"
  by code_simp

section \<open>The loop of the child cursor\<close>

lemma py_not_iff: "py_not x \<longleftrightarrow> x = None \<or> x = Some []"
  by (cases x rule: py_not.cases) simp_all

lemma Next_keeps_index_in_range_aux:
  fixes E :: "'a \<Rightarrow> bool" and R :: "'a \<Rightarrow> 'b" and N :: "'a \<Rightarrow> error + 'a"
    and X :: "'b \<Rightarrow> 'c list option" and self :: "('a, 'c) ElementsCursor"
  assumes "PatentsElementsCursor_Next E R N X self = Some y"
  shows "\<forall>self'. y = Inr self' \<longrightarrow> (py_not (elements self) \<or> - 1 \<le> element_index self) \<longrightarrow>
         (\<not> ec_eof self' \<longrightarrow>
            (\<exists>es. elements self' = Some es \<and> es \<noteq> [] \<and> 0 \<le> element_index self' \<and>
                  element_index self' < int (length es))) \<and>
         (py_not (elements self') \<or> - 1 \<le> element_index self')"
proof (rule PatentsElementsCursor_Next.raw_induct [where P = "\<lambda>E R N X self y.
         \<forall>self'. y = Inr self' \<longrightarrow> (py_not (elements self) \<or> - 1 \<le> element_index self) \<longrightarrow>
         (\<not> ec_eof self' \<longrightarrow>
            (\<exists>es. elements self' = Some es \<and> es \<noteq> [] \<and> 0 \<le> element_index self' \<and>
                  element_index self' < int (length es))) \<and>
         (py_not (elements self') \<or> - 1 \<le> element_index self')", OF _ assms])
  fix rec :: "('a \<Rightarrow> bool) \<Rightarrow> ('a \<Rightarrow> 'b) \<Rightarrow> ('a \<Rightarrow> error + 'a) \<Rightarrow> ('b \<Rightarrow> 'c list option)
     \<Rightarrow> ('a, 'c) ElementsCursor \<Rightarrow> (error + ('a, 'c) ElementsCursor) option"
    and E R N X and self :: "('a, 'c) ElementsCursor" and y
  assume IH: "\<And>E R N X self y. rec E R N X self = Some y \<Longrightarrow>
         \<forall>self'. y = Inr self' \<longrightarrow> (py_not (elements self) \<or> - 1 \<le> element_index self) \<longrightarrow>
         (\<not> ec_eof self' \<longrightarrow>
            (\<exists>es. elements self' = Some es \<and> es \<noteq> [] \<and> 0 \<le> element_index self' \<and>
                  element_index self' < int (length es))) \<and>
         (py_not (elements self') \<or> - 1 \<le> element_index self')"
  assume raw: "(if E (parent_cursor self) then Some (Inr (self\<lparr>ec_eof := True\<rparr>))
      else
        let self1 =
              (if py_not (elements self)
               then self\<lparr>elements := X (R (parent_cursor self)), element_index := - 1\<rparr>
               else self)
        in if py_not (elements self1)
           then (case N (parent_cursor self1) of
                   Inl e \<Rightarrow> Some (Inl e)
                 | Inr p \<Rightarrow> rec E R N X (self1\<lparr>parent_cursor := p, elements := None\<rparr>))
           else if element_index self1 + 1 < int (length (the (elements self1)))
           then Some (Inr (self1\<lparr>element_index := element_index self1 + 1,
                                  ec_eof := False\<rparr>))
           else (case N (parent_cursor self1) of
                   Inl e \<Rightarrow> Some (Inl e)
                 | Inr p \<Rightarrow> rec E R N X (self1\<lparr>parent_cursor := p, elements := None\<rparr>))) =
     Some y"
  define self1 where "self1 =
     (if py_not (elements self)
      then self\<lparr>elements := X (R (parent_cursor self)), element_index := - 1\<rparr>
      else self)"
  have body: "(if E (parent_cursor self) then Some (Inr (self\<lparr>ec_eof := True\<rparr>))
      else if py_not (elements self1)
        then (case N (parent_cursor self1) of
                Inl e \<Rightarrow> Some (Inl e)
              | Inr p \<Rightarrow> rec E R N X (self1\<lparr>parent_cursor := p, elements := None\<rparr>))
        else if element_index self1 + 1 < int (length (the (elements self1)))
        then Some (Inr (self1\<lparr>element_index := element_index self1 + 1, ec_eof := False\<rparr>))
        else (case N (parent_cursor self1) of
                Inl e \<Rightarrow> Some (Inl e)
              | Inr p \<Rightarrow> rec E R N X (self1\<lparr>parent_cursor := p, elements := None\<rparr>))) =
      Some y"
    using raw by (simp only: self1_def Let_def)
  show "\<forall>self'. y = Inr self' \<longrightarrow> (py_not (elements self) \<or> - 1 \<le> element_index self) \<longrightarrow>
         (\<not> ec_eof self' \<longrightarrow>
            (\<exists>es. elements self' = Some es \<and> es \<noteq> [] \<and> 0 \<le> element_index self' \<and>
                  element_index self' < int (length es))) \<and>
         (py_not (elements self') \<or> - 1 \<le> element_index self')"
  proof (intro allI impI)
    fix self'
    assume y: "y = Inr self'" and wf: "py_not (elements self) \<or> - 1 \<le> element_index self"
    let ?goal = "(\<not> ec_eof self' \<longrightarrow>
            (\<exists>es. elements self' = Some es \<and> es \<noteq> [] \<and> 0 \<le> element_index self' \<and>
                  element_index self' < int (length es))) \<and>
         (py_not (elements self') \<or> - 1 \<le> element_index self')"
    have i1: "- 1 \<le> element_index self1" using wf by (auto simp: self1_def)
    have via_rec: ?goal
      if c: "(case N (parent_cursor self1) of
                Inl e \<Rightarrow> Some (Inl e)
              | Inr p \<Rightarrow> rec E R N X (self1\<lparr>parent_cursor := p, elements := None\<rparr>)) =
          Some y"
    proof (cases "N (parent_cursor self1)")
      case (Inl e)
      with c y show ?thesis by simp
    next
      case (Inr p)
      with c have r: "rec E R N X (self1\<lparr>parent_cursor := p, elements := None\<rparr>) = Some y"
        by simp
      from IH [OF r] y show ?thesis by simp
    qed
    show ?goal
    proof (cases "E (parent_cursor self)")
      case True
      with body y have "self' = self\<lparr>ec_eof := True\<rparr>" by simp
      with wf show ?thesis by simp
    next
      case notE: False
      show ?thesis
      proof (cases "py_not (elements self1)")
        case True
        with notE body show ?thesis by (intro via_rec) simp
      next
        case ne: False
        then obtain es where es: "elements self1 = Some es" "es \<noteq> []"
          by (auto simp: py_not_iff)
        show ?thesis
        proof (cases "element_index self1 + 1 < int (length es)")
          case True
          with notE ne es body have
            "y = Inr (self1\<lparr>element_index := element_index self1 + 1, ec_eof := False\<rparr>)"
            by simp
          with y have
            "self' = self1\<lparr>element_index := element_index self1 + 1, ec_eof := False\<rparr>"
            by simp
          with True es i1 show ?thesis by simp
        next
          case False
          with notE ne es body show ?thesis by (intro via_rec) simp
        qed
      qed
    qed
  qed
qed


lemma Next_skips_empty_row:
  assumes "\<not> E (parent_cursor self)" and "py_not (elements self)"
    and "py_not (X (R (parent_cursor self)))"
  shows "PatentsElementsCursor_Next E R N X self =
           (case N (parent_cursor self) of
              Inl e \<Rightarrow> Some (Inl e)
            | Inr p \<Rightarrow>
                PatentsElementsCursor_Next E R N X
                  (self\<lparr>element_index := - 1, parent_cursor := p, elements := None\<rparr>))"
  using assms
  by (subst PatentsElementsCursor_Next.simps) (simp split: sum.splits)

lemma Next_first_element:
  assumes "\<not> E (parent_cursor self)" and "py_not (elements self)"
    and "X (R (parent_cursor self)) = Some (x # xs)"
  shows "PatentsElementsCursor_Next E R N X self =
           Some (Inr (self\<lparr>elements := Some (x # xs), element_index := 0, ec_eof := False\<rparr>))"
  using assms
  by (subst PatentsElementsCursor_Next.simps) simp

lemma Next_returns:
  assumes dec: "\<And>p p'. \<not> E p \<Longrightarrow> N p = Inr p' \<Longrightarrow> (m p' :: nat) < m p"
  shows "\<exists>r. PatentsElementsCursor_Next E R N X self = Some r"
proof (induction "m (parent_cursor self)" arbitrary: self rule: less_induct)
  case less
  show ?case
  proof (cases "E (parent_cursor self)")
    case True
    then show ?thesis by (subst PatentsElementsCursor_Next.simps) simp
  next
    case False
    have rec: "\<exists>r. PatentsElementsCursor_Next E R N X s = Some r"
      if "N (parent_cursor self) = Inr p" and "parent_cursor s = p" for p s
      using less [of s] dec [OF False that(1)] that(2) by simp
    define self1 where "self1 =
       (if py_not (elements self)
        then self\<lparr>elements := X (R (parent_cursor self)), element_index := - 1\<rparr>
        else self)"
    have pc: "parent_cursor self1 = parent_cursor self" by (simp add: self1_def)
    have step: "\<exists>r. (case N (parent_cursor self1) of
                  Inl e \<Rightarrow> Some (Inl e)
                | Inr p \<Rightarrow> PatentsElementsCursor_Next E R N X
                            (self1\<lparr>parent_cursor := p, elements := None\<rparr>)) = Some r"
    proof (cases "N (parent_cursor self1)")
      case (Inl e)
      then show ?thesis by simp
    next
      case (Inr p)
      with rec [of p "self1\<lparr>parent_cursor := p, elements := None\<rparr>"] pc show ?thesis
        by simp
    qed
    have unfold: "PatentsElementsCursor_Next E R N X self =
       (if py_not (elements self1)
        then (case N (parent_cursor self1) of
                Inl e \<Rightarrow> Some (Inl e)
              | Inr p \<Rightarrow> PatentsElementsCursor_Next E R N X
                          (self1\<lparr>parent_cursor := p, elements := None\<rparr>))
        else if element_index self1 + 1 < int (length (the (elements self1)))
        then Some (Inr (self1\<lparr>element_index := element_index self1 + 1, ec_eof := False\<rparr>))
        else (case N (parent_cursor self1) of
                Inl e \<Rightarrow> Some (Inl e)
              | Inr p \<Rightarrow> PatentsElementsCursor_Next E R N X
                          (self1\<lparr>parent_cursor := p, elements := None\<rparr>)))"
      using False
      by (subst PatentsElementsCursor_Next.simps) (simp only: self1_def Let_def if_False)
    show ?thesis
      unfolding unfold using step by (simp only: split: if_splits) blast
  qed
qed

lemma PatentsCursor_Next_decreases:
  assumes "\<not> PatentsCursor_Eof p" and "PatentsCursor_Next parse data_source p = Inr p'"
  shows "PatentsCursor_remaining data_source p' < PatentsCursor_remaining data_source p"
proof -
  obtain s w where p: "p = (s, w)" by (cases p)
  obtain s' w' where p': "p' = (s', w')" by (cases p')
  from assms(2) have n: "XMLChunkCursor_Next parse data_source (files_cursor s, w) =
      Inr (files_cursor s', w')" and e: "pc_eof s' = eof (files_cursor s')"
    by (auto simp: p p' PatentsCursor_Next_def split: sum.splits prod.splits)
  show ?thesis
  proof (cases "eof (files_cursor s')")
    case True
    with e assms(1) show ?thesis
      by (simp add: p p' PatentsCursor_remaining_def PatentsCursor_Eof_def)
  next
    case False
    from XMLChunkCursor_Next_on_row [OF n False] obtain i where
      "file_index (files_cursor s) = Some (i - 1)" "file_index (files_cursor s') = Some i"
      "i < int (length data_source)" by blast
    with e False assms(1) show ?thesis
      by (simp add: p p' PatentsCursor_remaining_def PatentsCursor_Eof_def)
  qed
qed

lemma Next_at_parent_Eof:
  assumes "E (parent_cursor self)"
  shows "PatentsElementsCursor_Next E R N X self = Some (Inr (self\<lparr>ec_eof := True\<rparr>))"
  using assms by (subst PatentsElementsCursor_Next.simps) simp

lemma Next_next_element:
  assumes "\<not> E (parent_cursor self)" and "elements self = Some es" and "es \<noteq> []"
    and "element_index self + 1 < int (length es)"
  shows "PatentsElementsCursor_Next E R N X self =
           Some (Inr (self\<lparr>element_index := element_index self + 1, ec_eof := False\<rparr>))"
  using assms by (subst PatentsElementsCursor_Next.simps) (simp add: py_not_iff)

lemma Next_list_used_up:
  assumes "\<not> E (parent_cursor self)" and "elements self = Some es" and "es \<noteq> []"
    and "\<not> element_index self + 1 < int (length es)"
  shows "PatentsElementsCursor_Next E R N X self =
           (case N (parent_cursor self) of
              Inl e \<Rightarrow> Some (Inl e)
            | Inr p \<Rightarrow>
                PatentsElementsCursor_Next E R N X
                  (self\<lparr>parent_cursor := p, elements := None\<rparr>))"
  using assms by (subst PatentsElementsCursor_Next.simps) (simp add: py_not_iff)

text \<open>
  Claim C2, for a child cursor over any parent cursor. The first conjunct is the
  invariant: when \<open>Next\<close> is called on a cursor that holds no element list, or one
  whose index is at least \<open>-1\<close>, and returns a cursor that is not at \<open>Eof\<close>, that
  cursor holds a non-empty element list and \<open>0 \<le> element_index < len(elements)\<close>;
  the condition on the index holds again after the call, so it holds before every later
  call. The fourth conjunct is that \<open>Next\<close> returns whenever each \<open>Next\<close> of a
  parent that is not at \<open>Eof\<close> decreases some measure, as it does for the patents
  cursor (\<open>PatentsCursor_Next_decreases\<close>). The other five conjuncts give the result of
  \<open>Next\<close> in every state of the cursor:
  \<^item> the parent is at \<open>Eof\<close>: the cursor is set to \<open>Eof\<close> (fifth);
  \<^item> a non-empty list is held and an element is left: the index moves on by one (sixth);
  \<^item> a non-empty list is held and it is used up: the parent is advanced, the list is
    dropped, and \<open>Next\<close> goes on from there (seventh);
  \<^item> no list is held and the extraction of the parent's row is empty or \<open>None\<close>: the
    parent is advanced and \<open>Next\<close> goes on from the next parent row with no list
    held, so the row is never returned (second);
  \<^item> no list is held and the extraction is not empty: the cursor returns on its first
    element, with \<open>element_index\<close> 0 (third).
\<close>

theorem child_skip_invariant:
  fixes parent_Eof :: "'p \<Rightarrow> bool" and parent_current_row_value :: "'p \<Rightarrow> 'r"
    and parent_Next :: "'p \<Rightarrow> error + 'p" and extract_multiple :: "'r \<Rightarrow> 'e list option"
    and self self' :: "('p, 'e) ElementsCursor" and m :: "'p \<Rightarrow> nat"
  shows
  "(PatentsElementsCursor_Next parent_Eof parent_current_row_value parent_Next extract_multiple
        self = Some (Inr self') \<and>
    (py_not (elements self) \<or> - 1 \<le> element_index self) \<longrightarrow>
      (\<not> ec_eof self' \<longrightarrow>
         (\<exists>es. elements self' = Some es \<and> es \<noteq> [] \<and> 0 \<le> element_index self' \<and>
               element_index self' < int (length es))) \<and>
      (py_not (elements self') \<or> - 1 \<le> element_index self')) \<and>
   (\<not> parent_Eof (parent_cursor self) \<and> py_not (elements self) \<and>
    py_not (extract_multiple (parent_current_row_value (parent_cursor self))) \<longrightarrow>
      PatentsElementsCursor_Next parent_Eof parent_current_row_value parent_Next
          extract_multiple self =
        (case parent_Next (parent_cursor self) of
           Inl e \<Rightarrow> Some (Inl e)
         | Inr p \<Rightarrow>
             PatentsElementsCursor_Next parent_Eof parent_current_row_value parent_Next
               extract_multiple
               (self\<lparr>element_index := - 1, parent_cursor := p, elements := None\<rparr>))) \<and>
   (\<not> parent_Eof (parent_cursor self) \<and> py_not (elements self) \<and>
    extract_multiple (parent_current_row_value (parent_cursor self)) = Some (x # xs) \<longrightarrow>
      PatentsElementsCursor_Next parent_Eof parent_current_row_value parent_Next
          extract_multiple self =
        Some (Inr (self\<lparr>elements := Some (x # xs), element_index := 0, ec_eof := False\<rparr>))) \<and>
   ((\<forall>p p'. \<not> parent_Eof p \<and> parent_Next p = Inr p' \<longrightarrow> m p' < m p) \<longrightarrow>
      (\<exists>r. PatentsElementsCursor_Next parent_Eof parent_current_row_value parent_Next
             extract_multiple self = Some r)) \<and>
   (parent_Eof (parent_cursor self) \<longrightarrow>
      PatentsElementsCursor_Next parent_Eof parent_current_row_value parent_Next
          extract_multiple self = Some (Inr (self\<lparr>ec_eof := True\<rparr>))) \<and>
   (\<not> parent_Eof (parent_cursor self) \<and> elements self = Some es \<and> es \<noteq> [] \<and>
    element_index self + 1 < int (length es) \<longrightarrow>
      PatentsElementsCursor_Next parent_Eof parent_current_row_value parent_Next
          extract_multiple self =
        Some (Inr (self\<lparr>element_index := element_index self + 1, ec_eof := False\<rparr>))) \<and>
   (\<not> parent_Eof (parent_cursor self) \<and> elements self = Some es \<and> es \<noteq> [] \<and>
    \<not> element_index self + 1 < int (length es) \<longrightarrow>
      PatentsElementsCursor_Next parent_Eof parent_current_row_value parent_Next
          extract_multiple self =
        (case parent_Next (parent_cursor self) of
           Inl e \<Rightarrow> Some (Inl e)
         | Inr p \<Rightarrow>
             PatentsElementsCursor_Next parent_Eof parent_current_row_value parent_Next
               extract_multiple (self\<lparr>parent_cursor := p, elements := None\<rparr>)))"
proof -
  have c1: "(\<not> ec_eof self' \<longrightarrow>
         (\<exists>es. elements self' = Some es \<and> es \<noteq> [] \<and> 0 \<le> element_index self' \<and>
               element_index self' < int (length es))) \<and>
      (py_not (elements self') \<or> - 1 \<le> element_index self')"
    if a: "PatentsElementsCursor_Next parent_Eof parent_current_row_value parent_Next
        extract_multiple self = Some (Inr self') \<and>
      (py_not (elements self) \<or> - 1 \<le> element_index self)"
    using Next_keeps_index_in_range_aux [OF a [THEN conjunct1]] a [THEN conjunct2] by blast
  have c2: "PatentsElementsCursor_Next parent_Eof parent_current_row_value parent_Next
          extract_multiple self =
        (case parent_Next (parent_cursor self) of
           Inl e \<Rightarrow> Some (Inl e)
         | Inr p \<Rightarrow>
             PatentsElementsCursor_Next parent_Eof parent_current_row_value parent_Next
               extract_multiple
               (self\<lparr>element_index := - 1, parent_cursor := p, elements := None\<rparr>))"
    if "\<not> parent_Eof (parent_cursor self) \<and> py_not (elements self) \<and>
        py_not (extract_multiple (parent_current_row_value (parent_cursor self)))"
    using that by (intro Next_skips_empty_row) simp_all
  have c3: "PatentsElementsCursor_Next parent_Eof parent_current_row_value parent_Next
          extract_multiple self =
        Some (Inr (self\<lparr>elements := Some (x # xs), element_index := 0, ec_eof := False\<rparr>))"
    if "\<not> parent_Eof (parent_cursor self) \<and> py_not (elements self) \<and>
        extract_multiple (parent_current_row_value (parent_cursor self)) = Some (x # xs)"
    using that by (intro Next_first_element) simp_all
  have c4: "\<exists>r. PatentsElementsCursor_Next parent_Eof parent_current_row_value parent_Next
             extract_multiple self = Some r"
    if "\<forall>p p'. \<not> parent_Eof p \<and> parent_Next p = Inr p' \<longrightarrow> m p' < m p"
    using that by (intro Next_returns [where m = m]) blast
  have c5: "PatentsElementsCursor_Next parent_Eof parent_current_row_value parent_Next
          extract_multiple self = Some (Inr (self\<lparr>ec_eof := True\<rparr>))"
    if "parent_Eof (parent_cursor self)"
    using that by (rule Next_at_parent_Eof)
  have c6: "PatentsElementsCursor_Next parent_Eof parent_current_row_value parent_Next
          extract_multiple self =
        Some (Inr (self\<lparr>element_index := element_index self + 1, ec_eof := False\<rparr>))"
    if "\<not> parent_Eof (parent_cursor self) \<and> elements self = Some es \<and> es \<noteq> [] \<and>
        element_index self + 1 < int (length es)"
    using that by (intro Next_next_element [where es = es]) simp_all
  have c7: "PatentsElementsCursor_Next parent_Eof parent_current_row_value parent_Next
          extract_multiple self =
        (case parent_Next (parent_cursor self) of
           Inl e \<Rightarrow> Some (Inl e)
         | Inr p \<Rightarrow>
             PatentsElementsCursor_Next parent_Eof parent_current_row_value parent_Next
               extract_multiple (self\<lparr>parent_cursor := p, elements := None\<rparr>))"
    if "\<not> parent_Eof (parent_cursor self) \<and> elements self = Some es \<and> es \<noteq> [] \<and>
        \<not> element_index self + 1 < int (length es)"
    using that by (intro Next_list_used_up [where es = es]) simp_all
  show ?thesis
    by (intro conjI) (rule impI, erule c1 c2 c3 c4 c5 c6 c7)+
qed

text \<open>
  The theorem on the patents cursor over three containers with two, no and three
  elements. From the first element of the first container \<open>Next\<close> moves to its
  second element; from there it uses up the list, passes over the second container
  and returns on the first element of the third, with index 0; from the last element
  of the third container it sets \<open>Eof\<close>.
\<close>

theorem child_skip_invariant_witness:
  "PatentsElementsCursor_Next PatentsCursor_Eof PatentsCursor_current_row_value
      (PatentsCursor_Next (\<lambda>b::nat. Inr b :: error + nat) [2, 0, 3])
      (\<lambda>t. case t of None \<Rightarrow> None | Some n \<Rightarrow> Some (replicate n True))
      \<lparr>parent_cursor =
           (\<lparr>files_cursor =
               \<lparr>eof = False, file_index = Some 0, single_file = Some False,
                 file_read = Some True, element_tree = Some 2\<rparr>,
             pc_eof = False, item_index = 0\<rparr>,
            (\<lparr>cached_id = Some 0, cached_data = Some 2\<rparr>, 1)),
         elements = Some [True, True], element_index = 0, ec_eof = False\<rparr> =
     Some (Inr
        \<lparr>parent_cursor =
           (\<lparr>files_cursor =
               \<lparr>eof = False, file_index = Some 0, single_file = Some False,
                 file_read = Some True, element_tree = Some 2\<rparr>,
             pc_eof = False, item_index = 0\<rparr>,
            (\<lparr>cached_id = Some 0, cached_data = Some 2\<rparr>, 1)),
         elements = Some [True, True], element_index = 1, ec_eof = False\<rparr>) \<and>
   PatentsElementsCursor_Next PatentsCursor_Eof PatentsCursor_current_row_value
      (PatentsCursor_Next (\<lambda>b::nat. Inr b :: error + nat) [2, 0, 3])
      (\<lambda>t. case t of None \<Rightarrow> None | Some n \<Rightarrow> Some (replicate n True))
      \<lparr>parent_cursor =
           (\<lparr>files_cursor =
               \<lparr>eof = False, file_index = Some 0, single_file = Some False,
                 file_read = Some True, element_tree = Some 2\<rparr>,
             pc_eof = False, item_index = 0\<rparr>,
            (\<lparr>cached_id = Some 0, cached_data = Some 2\<rparr>, 1)),
         elements = Some [True, True], element_index = 1, ec_eof = False\<rparr> =
     Some (Inr
        \<lparr>parent_cursor =
           (\<lparr>files_cursor =
               \<lparr>eof = False, file_index = Some 2, single_file = Some False,
                 file_read = Some True, element_tree = Some 3\<rparr>,
             pc_eof = False, item_index = 0\<rparr>,
            (\<lparr>cached_id = Some 2, cached_data = Some 3\<rparr>, 3)),
         elements = Some [True, True, True], element_index = 0, ec_eof = False\<rparr>) \<and>
   PatentsElementsCursor_Next PatentsCursor_Eof PatentsCursor_current_row_value
      (PatentsCursor_Next (\<lambda>b::nat. Inr b :: error + nat) [2, 0, 3])
      (\<lambda>t. case t of None \<Rightarrow> None | Some n \<Rightarrow> Some (replicate n True))
      \<lparr>parent_cursor =
           (\<lparr>files_cursor =
               \<lparr>eof = False, file_index = Some 2, single_file = Some False,
                 file_read = Some True, element_tree = Some 3\<rparr>,
             pc_eof = False, item_index = 0\<rparr>,
            (\<lparr>cached_id = Some 2, cached_data = Some 3\<rparr>, 3)),
         elements = Some [True, True, True], element_index = 2, ec_eof = False\<rparr> =
     Some (Inr
        \<lparr>parent_cursor =
           (\<lparr>files_cursor =
               \<lparr>eof = True, file_index = Some 2, single_file = Some False,
                 file_read = Some True, element_tree = Some 3\<rparr>,
             pc_eof = True, item_index = 0\<rparr>,
            (\<lparr>cached_id = Some 2, cached_data = Some 3\<rparr>, 3)),
         elements = None, element_index = 2, ec_eof = True\<rparr>) \<and>
   (\<exists>es. Some [True, True, True] = Some es \<and> es \<noteq> [] \<and> (0::int) \<le> 0 \<and> (0::int) < int (length es)) \<and>
   (\<exists>r. PatentsElementsCursor_Next PatentsCursor_Eof PatentsCursor_current_row_value
      (PatentsCursor_Next (\<lambda>b::nat. Inr b :: error + nat) [2, 0, 3])
      (\<lambda>t. case t of None \<Rightarrow> None | Some n \<Rightarrow> Some (replicate n True))
      \<lparr>parent_cursor =
           (\<lparr>files_cursor =
               \<lparr>eof = False, file_index = Some 0, single_file = Some False,
                 file_read = Some True, element_tree = Some 2\<rparr>,
             pc_eof = False, item_index = 0\<rparr>,
            (\<lparr>cached_id = Some 0, cached_data = Some 2\<rparr>, 1)),
         elements = Some [True, True], element_index = 0, ec_eof = False\<rparr> = Some r)"
proof -
  let ?P = "\<lambda>b::nat. Inr b :: error + nat"
  let ?N = "PatentsCursor_Next ?P [2, 0, 3]"
  let ?X = "\<lambda>t. case t of None \<Rightarrow> None | Some n \<Rightarrow> Some (replicate n True)"
  let ?pa = "(\<lparr>files_cursor = \<lparr>eof = False, file_index = Some 0, single_file = Some False,
                 file_read = Some True, element_tree = Some (2::nat)\<rparr>,
             pc_eof = False, item_index = 0\<rparr>,
            (\<lparr>cached_id = Some 0, cached_data = Some (2::nat)\<rparr>, 1::int))"
  let ?pb = "(\<lparr>files_cursor = \<lparr>eof = False, file_index = Some 1, single_file = Some False,
                 file_read = Some True, element_tree = Some (0::nat)\<rparr>,
             pc_eof = False, item_index = 0\<rparr>,
            (\<lparr>cached_id = Some 1, cached_data = Some (0::nat)\<rparr>, 2::int))"
  let ?pc = "(\<lparr>files_cursor = \<lparr>eof = False, file_index = Some 2, single_file = Some False,
                 file_read = Some True, element_tree = Some (3::nat)\<rparr>,
             pc_eof = False, item_index = 0\<rparr>,
            (\<lparr>cached_id = Some 2, cached_data = Some (3::nat)\<rparr>, 3::int))"
  let ?pd = "(\<lparr>files_cursor = \<lparr>eof = True, file_index = Some 2, single_file = Some False,
                 file_read = Some True, element_tree = Some (3::nat)\<rparr>,
             pc_eof = True, item_index = 0\<rparr>,
            (\<lparr>cached_id = Some 2, cached_data = Some (3::nat)\<rparr>, 3::int))"
  let ?s1 = "\<lparr>parent_cursor = ?pa, elements = Some [True, True], element_index = 0,
              ec_eof = False\<rparr>"
  let ?s2 = "\<lparr>parent_cursor = ?pa, elements = Some [True, True], element_index = 1,
              ec_eof = False\<rparr>"
  let ?u1 = "\<lparr>parent_cursor = ?pb, elements = None :: bool list option, element_index = 1,
              ec_eof = False\<rparr>"
  let ?u2 = "\<lparr>parent_cursor = ?pc, elements = None :: bool list option, element_index = - 1,
              ec_eof = False\<rparr>"
  let ?s3 = "\<lparr>parent_cursor = ?pc, elements = Some [True, True, True], element_index = 0,
              ec_eof = False\<rparr>"
  let ?t3 = "\<lparr>parent_cursor = ?pc, elements = Some [True, True, True], element_index = 2,
              ec_eof = False\<rparr>"
  let ?v = "\<lparr>parent_cursor = ?pd, elements = None :: bool list option, element_index = 2,
             ec_eof = False\<rparr>"
  let ?s4 = "\<lparr>parent_cursor = ?pd, elements = None :: bool list option, element_index = 2,
              ec_eof = True\<rparr>"
  let ?Next = "PatentsElementsCursor_Next PatentsCursor_Eof PatentsCursor_current_row_value
                 ?N ?X"
  have n_ab: "?N ?pa = Inr ?pb" and n_bc: "?N ?pb = Inr ?pc" and n_cd: "?N ?pc = Inr ?pd"
    by (simp_all add: PatentsCursor_Next_def XMLChunkCursor_Next_def py_get_def read_def
        truthy_def)
  have h6: "\<not> PatentsCursor_Eof (parent_cursor ?s1) \<and> elements ?s1 = Some [True, True] \<and>
            [True, True] \<noteq> [] \<and> element_index ?s1 + 1 < int (length [True, True])"
    by (simp add: PatentsCursor_Eof_def)
  have e1: "?Next ?s1 = Some (Inr ?s2)"
    using child_skip_invariant [where parent_Eof = PatentsCursor_Eof
        and parent_current_row_value = PatentsCursor_current_row_value and parent_Next = ?N
        and extract_multiple = ?X and m = "PatentsCursor_remaining [2, 0, 3::nat]"
        and self = ?s1 and es = "[True, True]",
        THEN conjunct2, THEN conjunct2, THEN conjunct2, THEN conjunct2, THEN conjunct2,
        THEN conjunct1, THEN mp, OF h6] by simp
  have h7: "\<not> PatentsCursor_Eof (parent_cursor ?s2) \<and> elements ?s2 = Some [True, True] \<and>
            [True, True] \<noteq> [] \<and> \<not> element_index ?s2 + 1 < int (length [True, True])"
    by (simp add: PatentsCursor_Eof_def)
  have e2a: "?Next ?s2 = ?Next ?u1"
    using child_skip_invariant [where parent_Eof = PatentsCursor_Eof
        and parent_current_row_value = PatentsCursor_current_row_value and parent_Next = ?N
        and extract_multiple = ?X and m = "PatentsCursor_remaining [2, 0, 3::nat]"
        and self = ?s2 and es = "[True, True]",
        THEN conjunct2, THEN conjunct2, THEN conjunct2, THEN conjunct2, THEN conjunct2,
        THEN conjunct2, THEN mp, OF h7] by (simp add: n_ab)
  have h2: "\<not> PatentsCursor_Eof (parent_cursor ?u1) \<and> py_not (elements ?u1) \<and>
            py_not (?X (PatentsCursor_current_row_value (parent_cursor ?u1)))"
    by (simp add: PatentsCursor_Eof_def PatentsCursor_current_row_value_def)
  have e2b: "?Next ?u1 = ?Next ?u2"
    using child_skip_invariant [where parent_Eof = PatentsCursor_Eof
        and parent_current_row_value = PatentsCursor_current_row_value and parent_Next = ?N
        and extract_multiple = ?X and m = "PatentsCursor_remaining [2, 0, 3::nat]"
        and self = ?u1,
        THEN conjunct2, THEN conjunct1, THEN mp, OF h2] by (simp add: n_bc)
  have h3: "\<not> PatentsCursor_Eof (parent_cursor ?u2) \<and> py_not (elements ?u2) \<and>
            ?X (PatentsCursor_current_row_value (parent_cursor ?u2)) =
              Some (True # [True, True])"
    by (simp add: PatentsCursor_Eof_def PatentsCursor_current_row_value_def numeral_3_eq_3)
  have e2c: "?Next ?u2 = Some (Inr ?s3)"
    using child_skip_invariant [where parent_Eof = PatentsCursor_Eof
        and parent_current_row_value = PatentsCursor_current_row_value and parent_Next = ?N
        and extract_multiple = ?X and m = "PatentsCursor_remaining [2, 0, 3::nat]"
        and self = ?u2 and x = True and xs = "[True, True]",
        THEN conjunct2, THEN conjunct2, THEN conjunct1, THEN mp, OF h3] by simp
  have e2: "?Next ?s2 = Some (Inr ?s3)"
    by (simp only: e2a e2b e2c)
  have h7': "\<not> PatentsCursor_Eof (parent_cursor ?t3) \<and>
            elements ?t3 = Some [True, True, True] \<and> [True, True, True] \<noteq> [] \<and>
            \<not> element_index ?t3 + 1 < int (length [True, True, True])"
    by (simp add: PatentsCursor_Eof_def)
  have e3a: "?Next ?t3 = ?Next ?v"
    using child_skip_invariant [where parent_Eof = PatentsCursor_Eof
        and parent_current_row_value = PatentsCursor_current_row_value and parent_Next = ?N
        and extract_multiple = ?X and m = "PatentsCursor_remaining [2, 0, 3::nat]"
        and self = ?t3 and es = "[True, True, True]",
        THEN conjunct2, THEN conjunct2, THEN conjunct2, THEN conjunct2, THEN conjunct2,
        THEN conjunct2, THEN mp, OF h7'] by (simp add: n_cd)
  have h5: "PatentsCursor_Eof (parent_cursor ?v)"
    by (simp add: PatentsCursor_Eof_def)
  have e3b: "?Next ?v = Some (Inr ?s4)"
    using child_skip_invariant [where parent_Eof = PatentsCursor_Eof
        and parent_current_row_value = PatentsCursor_current_row_value and parent_Next = ?N
        and extract_multiple = ?X and m = "PatentsCursor_remaining [2, 0, 3::nat]"
        and self = ?v,
        THEN conjunct2, THEN conjunct2, THEN conjunct2, THEN conjunct2, THEN conjunct1, THEN mp, OF h5] by simp
  have e3: "?Next ?t3 = Some (Inr ?s4)"
    by (simp only: e3a e3b)
  have h1: "?Next ?s2 = Some (Inr ?s3) \<and>
            (py_not (elements ?s2) \<or> - 1 \<le> element_index ?s2)"
    using e2 by simp
  have range: "\<exists>es. Some [True, True, True] = Some es \<and> es \<noteq> [] \<and> (0::int) \<le> 0 \<and>
                 (0::int) < int (length es)"
    using child_skip_invariant [where parent_Eof = PatentsCursor_Eof
        and parent_current_row_value = PatentsCursor_current_row_value and parent_Next = ?N
        and extract_multiple = ?X and m = "PatentsCursor_remaining [2, 0, 3::nat]"
        and self = ?s2 and self' = ?s3,
        THEN conjunct1, THEN mp, OF h1, THEN conjunct1] by simp
  have h4: "\<forall>p p'. \<not> PatentsCursor_Eof p \<and> ?N p = Inr p' \<longrightarrow>
              PatentsCursor_remaining [2, 0, 3::nat] p' < PatentsCursor_remaining [2, 0, 3::nat] p"
    using PatentsCursor_Next_decreases by blast
  have returns: "\<exists>r. ?Next ?s1 = Some r"
    by (rule child_skip_invariant [where parent_Eof = PatentsCursor_Eof
        and parent_current_row_value = PatentsCursor_current_row_value and parent_Next = ?N
        and extract_multiple = ?X and m = "PatentsCursor_remaining [2, 0, 3::nat]"
        and self = ?s1,
        THEN conjunct2, THEN conjunct2, THEN conjunct2, THEN conjunct1, THEN mp, OF h4])
  from e1 e2 e3 range returns show ?thesis by (intro conjI)
qed

end
